theory Spec2Isabelle
  imports Complex_Main "HOL-Library.AList"
begin

section \<open>Modelling conventions\<close>

text \<open>
  The development embeds four parts of the Browserbase MCP server: the usage meter
  (\<^verbatim>\<open>src/mcp/usage.ts\<close>, in its two versions), the usage statistics tool built on it,
  the screenshot resource store with its retrying purge, and the session-close tool with
  its replay fetcher (\<^verbatim>\<open>src/tools/session.ts\<close>). The embedding comes first, then the
  notions the statements need, then the theorems.

  \<^item> A JavaScript object used as a dictionary and a \<^verbatim>\<open>Map\<close> are association lists holding
    their own keys in insertion order. An assignment \<^verbatim>\<open>o[k] = v\<close> that creates or changes
    an own property is \<^term>\<open>AList.update k v al\<close> (an existing key keeps its place, a new
    key is appended), \<^verbatim>\<open>delete o[k]\<close> is \<^term>\<open>AList.delete k al\<close> and
    \<^verbatim>\<open>Object.keys(o)\<close> is \<^term>\<open>map fst al\<close>. The general theorems read the lists through
    \<^term>\<open>map_of\<close>, so none depends on the order of the keys.
  \<^item> A \<^verbatim>\<open>Map\<close> and a \<^verbatim>\<open>Set\<close> answer for their own entries only. A plain object also
    answers for the names it inherits from \<^verbatim>\<open>Object.prototype\<close>; the section on plain
    objects gives its reads.
  \<^item> Call counts are natural numbers: they start at zero and are only ever incremented by
    one, which is exact below \<^verbatim>\<open>2^53\<close>. Token counts are integers. The retry options and
    the variables of the retry loop are JavaScript numbers: a finite double, read as the
    real number it stands for, \<^verbatim>\<open>NaN\<close> or an infinity; the section on the retry wrapper
    says where rounding shows there.
  \<^item> Truthiness is written out: an object and a function are truthy; \<^verbatim>\<open>undefined\<close>,
    \<^verbatim>\<open>NaN\<close> and the empty string are falsy.
  \<^item> A thrown value is a value of type \<open>thrown\<close>; a function that may throw returns a sum,
    \<^term>\<open>Inl\<close> carrying what was thrown. A loop that may run forever returns an option,
    \<^term>\<open>None\<close> when it does not return.
  \<^item> Module-level mutable objects are cells of an explicit store that every function takes
    and returns.
\<close>

section \<open>Thrown values\<close>

text \<open>
  What a \<^verbatim>\<open>catch\<close> clause receives is an \<^verbatim>\<open>Error\<close> with its message or some other value,
  kept as the string \<^verbatim>\<open>String(value)\<close>. \<open>messageOf\<close> is the idiom
  \<^verbatim>\<open>e instanceof Error ? e.message : String(e)\<close> and \<open>toError\<close> is
  \<^verbatim>\<open>e instanceof Error ? e : new Error(String(e))\<close>.
\<close>

datatype thrown = Error string | NonError string

fun messageOf :: "thrown \<Rightarrow> string" where
  "messageOf (Error m) = m"
| "messageOf (NonError v) = v"

fun toError :: "thrown \<Rightarrow> thrown" where
  "toError (Error m) = Error m"
| "toError (NonError v) = Error v"

text \<open>
  The \<^verbatim>\<open>TypeError\<close> of reading a property of \<^verbatim>\<open>undefined\<close> or of iterating what is not
  iterable. The engine's wording of it is not modelled.
\<close>

definition typeError :: thrown where
  "typeError = Error ''TypeError''"

section \<open>Plain objects\<close>

text \<open>
  The meter keeps its counters in objects created by \<^verbatim>\<open>{}\<close>. A read \<^verbatim>\<open>o[k]\<close> of such an
  object gives the own property \<open>k\<close> when there is one, and otherwise what
  \<^verbatim>\<open>Object.prototype\<close> has under that name: one of its eleven methods, or, for
  \<^verbatim>\<open>__proto__\<close>, the object \<^verbatim>\<open>Object.prototype\<close> itself. The meter can add one data property
  to \<^verbatim>\<open>Object.prototype\<close>: \<^verbatim>\<open>callCount\<close>, with the value \<^verbatim>\<open>NaN\<close> (see
  \<open>recordStagehandCall\<close>); the flag \<open>polluted\<close> says that it has.
\<close>

definition inheritedMethodNames :: "string list" where
  "inheritedMethodNames =
     [''constructor'', ''__defineGetter__'', ''__defineSetter__'', ''hasOwnProperty'',
      ''__lookupGetter__'', ''__lookupSetter__'', ''isPrototypeOf'',
      ''propertyIsEnumerable'', ''toString'', ''valueOf'', ''toLocaleString'']"

definition inheritedNames :: "string list" where
  "inheritedNames = ''__proto__'' # inheritedMethodNames"

datatype 'v property =
    Own 'v
  | InheritedMethod
  | ObjectPrototype
  | InheritedNaN
  | Undefined

definition getProperty :: "bool \<Rightarrow> (string \<times> 'v) list \<Rightarrow> string \<Rightarrow> 'v property" where
  "getProperty polluted obj k =
     (case map_of obj k of
        Some v \<Rightarrow> Own v
      | None \<Rightarrow>
          if k = ''__proto__'' then ObjectPrototype
          else if k \<in> set inheritedMethodNames then InheritedMethod
          else if polluted \<and> k = ''callCount'' then InheritedNaN
          else Undefined)"

text \<open>
  What \<^verbatim>\<open>String\<close> gives for an inherited method, as Node prints it: the method under
  \<^verbatim>\<open>constructor\<close> is the function \<^verbatim>\<open>Object\<close>, the others carry their own names.
\<close>

definition methodText :: "string \<Rightarrow> string" where
  "methodText k =
     ''function '' @ (if k = ''constructor'' then ''Object'' else k) @ ''() { [native code] }''"


section \<open>The usage meter (\<^verbatim>\<open>src/mcp/usage.ts\<close>)\<close>

record StagehandUsageKey =
  sessionId :: string
  toolName :: string
  operation :: string

text \<open>
  A tool count is written by \<^verbatim>\<open>t[toolName] = (t[toolName] ?? 0) + 1\<close>. On a number the
  \<^verbatim>\<open>+ 1\<close> adds one; on \<^verbatim>\<open>NaN\<close> it gives \<^verbatim>\<open>NaN\<close>; on anything else it gives a string, the
  text of the value followed by \<^verbatim>\<open>1\<close>. So a tool count is a number, \<^verbatim>\<open>NaN\<close> or a string.
  A \<^verbatim>\<open>callCount\<close> is only ever written on a bucket the meter has created with
  \<^verbatim>\<open>callCount: 0\<close>, so it is a number.
\<close>

datatype count = Count nat | CountNaN | CountText string

fun plus1 :: "count \<Rightarrow> count" where
  "plus1 (Count n) = Count (n + 1)"
| "plus1 CountNaN = CountNaN"
| "plus1 (CountText txt) = CountText (txt @ ''1'')"

record StagehandOperationStats =
  callCount :: nat
  toolCallCounts :: "(string \<times> count) list"

type_synonym container = "(string \<times> StagehandOperationStats) list"

record StagehandSessionUsage =
  operations :: container

text \<open>
  The store of the module: the own properties of the two module-level constants
  \<^verbatim>\<open>globalUsage\<close> and \<^verbatim>\<open>perSessionUsage\<close>, both of which start as the empty object, and the
  flag that says whether \<^verbatim>\<open>Object.prototype\<close> has got a \<^verbatim>\<open>callCount\<close> property.
\<close>

record usage_store =
  globalUsage :: container
  perSessionUsage :: "(string \<times> StagehandSessionUsage) list"
  prototypeCallCount :: bool

definition emptyUsage :: usage_store where
  "emptyUsage = \<lparr>globalUsage = [], perSessionUsage = [], prototypeCallCount = False\<rparr>"

text \<open>
  \<^verbatim>\<open>getOrCreateOperationStats(container, operation)\<close> inserts a zeroed bucket when
  \<^verbatim>\<open>container[operation]\<close> is falsy and returns \<^verbatim>\<open>container[operation]\<close>. An inherited
  method and \<^verbatim>\<open>Object.prototype\<close> are truthy: then nothing is inserted and the inherited
  object is what is returned. The model returns the container after the possible
  insertion together with what the source's reference points to: a bucket of the
  container, which the caller writes back under the same key after mutating it, or an
  inherited object (\<^term>\<open>True\<close> for \<^verbatim>\<open>Object.prototype\<close>).
\<close>

datatype statsRef = OwnBucket StagehandOperationStats | InheritedObject bool

definition getOrCreateOperationStats ::
  "bool \<Rightarrow> container \<Rightarrow> string \<Rightarrow> container \<times> statsRef" where
  "getOrCreateOperationStats polluted cont op =
     (let fresh = \<lparr>callCount = 0, toolCallCounts = []\<rparr>
      in (case getProperty polluted cont op of
            Own stats \<Rightarrow> (cont, OwnBucket stats)
          | InheritedMethod \<Rightarrow> (cont, InheritedObject False)
          | ObjectPrototype \<Rightarrow> (cont, InheritedObject True)
          | InheritedNaN \<Rightarrow> (AList.update op fresh cont, OwnBucket fresh)
          | Undefined \<Rightarrow> (AList.update op fresh cont, OwnBucket fresh)))"

text \<open>
  The statement \<^verbatim>\<open>t[toolName] = (t[toolName] ?? 0) + 1\<close> on the \<^verbatim>\<open>toolCallCounts\<close> of a
  bucket, which the source has twice. Only \<^verbatim>\<open>undefined\<close> is replaced by zero. An
  inherited method is turned into its text; \<^verbatim>\<open>Object.prototype\<close> is turned into a string
  as well, and the assignment of a string to \<^verbatim>\<open>__proto__\<close> is dropped by its setter.
\<close>

definition countToolCall :: "bool \<Rightarrow> string \<Rightarrow> (string \<times> count) list \<Rightarrow> (string \<times> count) list"
  where
  "countToolCall polluted tool counts =
     (case getProperty polluted counts tool of
        Own c \<Rightarrow> AList.update tool (plus1 c) counts
      | InheritedMethod \<Rightarrow> AList.update tool (CountText (methodText tool @ ''1'')) counts
      | ObjectPrototype \<Rightarrow> counts
      | InheritedNaN \<Rightarrow> AList.update tool CountNaN counts
      | Undefined \<Rightarrow> AList.update tool (Count 1) counts)"

text \<open>
  \<^verbatim>\<open>recordStagehandCall({sessionId, toolName, operation})\<close>, first version of the module
  (synchronous, call counts only). It returns normally or throws, and leaves a store
  either way.

  When \<^verbatim>\<open>getOrCreateOperationStats\<close> returns an inherited object, \<^verbatim>\<open>callCount += 1\<close>
  writes \<^verbatim>\<open>NaN\<close> on that object, which nothing reads unless the object is
  \<^verbatim>\<open>Object.prototype\<close>, and the read of \<^verbatim>\<open>toolCallCounts[toolName]\<close> throws, since the
  object has no \<^verbatim>\<open>toolCallCounts\<close>. When \<^verbatim>\<open>perSessionUsage[sessionId]\<close> is an inherited
  object, no session is created, its \<^verbatim>\<open>operations\<close> is \<^verbatim>\<open>undefined\<close>, and
  \<^verbatim>\<open>getOrCreateOperationStats\<close> throws on reading a property of it: by then the global
  bucket has been counted.
\<close>

definition recordStagehandCall ::
  "StagehandUsageKey \<Rightarrow> usage_store \<Rightarrow> (thrown + unit) \<times> usage_store" where
  "recordStagehandCall key s =
     (let polluted = prototypeCallCount s;
          \<comment> \<open>Update global aggregate\<close>
          (g1, globalRef) =
             getOrCreateOperationStats polluted (globalUsage s) (operation key)
      in (case globalRef of
            InheritedObject isPrototype \<Rightarrow>
              (Inl typeError, s\<lparr>prototypeCallCount := polluted \<or> isPrototype\<rparr>)
          | OwnBucket globalStats \<Rightarrow>
              (let globalStats1 = globalStats\<lparr>callCount := callCount globalStats + 1\<rparr>;
                   globalStats2 = globalStats1\<lparr>toolCallCounts :=
                     countToolCall polluted (toolName key) (toolCallCounts globalStats1)\<rparr>;
                   s1 = s\<lparr>globalUsage := AList.update (operation key) globalStats2 g1\<rparr>;
                   \<comment> \<open>Update per-session usage\<close>
                   inSession = (\<lambda>p1 session.
                     (let (o1, sessionRef) =
                            getOrCreateOperationStats polluted (operations session)
                              (operation key)
                      in (case sessionRef of
                            InheritedObject isPrototype \<Rightarrow>
                              (Inl typeError,
                               s1\<lparr>perSessionUsage := p1,
                                  prototypeCallCount := polluted \<or> isPrototype\<rparr>)
                          | OwnBucket sessionStats \<Rightarrow>
                              (let sessionStats1 =
                                     sessionStats\<lparr>callCount := callCount sessionStats + 1\<rparr>;
                                   sessionStats2 = sessionStats1\<lparr>toolCallCounts :=
                                     countToolCall polluted (toolName key)
                                       (toolCallCounts sessionStats1)\<rparr>;
                                   o2 = AList.update (operation key) sessionStats2 o1;
                                   p2 = AList.update (sessionId key)
                                          (session\<lparr>operations := o2\<rparr>) p1
                               in (Inr (), s1\<lparr>perSessionUsage := p2\<rparr>)))));
                   created = AList.update (sessionId key) \<lparr>operations = []\<rparr>
                               (perSessionUsage s)
               in (case getProperty polluted (perSessionUsage s) (sessionId key) of
                     Own session \<Rightarrow> inSession (perSessionUsage s) session
                   | InheritedMethod \<Rightarrow> (Inl typeError, s1)
                   | ObjectPrototype \<Rightarrow> (Inl typeError, s1)
                   | InheritedNaN \<Rightarrow> inSession created \<lparr>operations = []\<rparr>
                   | Undefined \<Rightarrow> inSession created \<lparr>operations = []\<rparr>))))"

text \<open>
  A finite sequence of calls, applied in order. A call that throws has left its store;
  the next call starts from it.
\<close>

definition recordCalls :: "StagehandUsageKey list \<Rightarrow> usage_store \<Rightarrow> usage_store" where
  "recordCalls keys s = fold (\<lambda>key st. snd (recordStagehandCall key st)) keys s"

text \<open>
  \<^verbatim>\<open>resetUsage()\<close> deletes every own key of the two objects in place; the objects themselves
  stay the same objects.
\<close>

definition resetUsage :: "usage_store \<Rightarrow> usage_store" where
  "resetUsage s =
     (let g = fold AList.delete (map fst (globalUsage s)) (globalUsage s);
          p = fold AList.delete (map fst (perSessionUsage s)) (perSessionUsage s)
      in s\<lparr>globalUsage := g, perSessionUsage := p\<rparr>)"

text \<open>
  \<^verbatim>\<open>getUsageSnapshot()\<close> allocates a new object whose two properties are references to
  the two module-level objects: nothing is copied. A reference is a value of its own here,
  read through the store that is current at the time of the read. A session's usage
  object and everything below it is never mutated by the functions that run between the
  creation of a snapshot and its serialisation, so an object literal built from such
  an object carries it by value. The literal that the tool builds has one key, whose
  value is what a read of \<^verbatim>\<open>perSessionUsage\<close> gave.
\<close>

datatype containerRef = GlobalUsageObj

datatype sessionsRef =
    PerSessionUsageObj
  | SessionsLiteral string "StagehandSessionUsage property"

record StagehandUsageSnapshot =
  global :: containerRef
  perSession :: sessionsRef

definition getUsageSnapshot :: StagehandUsageSnapshot where
  "getUsageSnapshot = \<lparr>global = GlobalUsageObj, perSession = PerSessionUsageObj\<rparr>"

text \<open>
  What \<^verbatim>\<open>JSON.stringify\<close> writes for the value under a session id: a session's usage
  object; \<^verbatim>\<open>Object.prototype\<close>, whose only enumerable property can be the \<^verbatim>\<open>callCount\<close>
  it has got, written as \<^verbatim>\<open>null\<close> (the flag says whether it is there); or \<^verbatim>\<open>null\<close> for
  \<^verbatim>\<open>NaN\<close>. A property whose value is a function or \<^verbatim>\<open>undefined\<close> is left out. A tool
  count that is \<^verbatim>\<open>NaN\<close> is written as \<^verbatim>\<open>null\<close> too: the tree keeps it as it is.
\<close>

datatype session_json =
    SessionJson StagehandSessionUsage
  | PrototypeJson bool
  | NullJson

definition derefContainer :: "usage_store \<Rightarrow> containerRef \<Rightarrow> container" where
  "derefContainer s r = (case r of GlobalUsageObj \<Rightarrow> globalUsage s)"

definition derefSessions ::
  "usage_store \<Rightarrow> sessionsRef \<Rightarrow> (string \<times> session_json) list" where
  "derefSessions s r =
     (case r of
        PerSessionUsageObj \<Rightarrow> map (\<lambda>entry. (fst entry, SessionJson (snd entry))) (perSessionUsage s)
      | SessionsLiteral k v \<Rightarrow>
          (case v of
             Own usage \<Rightarrow> [(k, SessionJson usage)]
           | InheritedMethod \<Rightarrow> []
           | ObjectPrototype \<Rightarrow> [(k, PrototypeJson (prototypeCallCount s))]
           | InheritedNaN \<Rightarrow> [(k, NullJson)]
           | Undefined \<Rightarrow> []))"

subsection \<open>The second version of the module: metrics are logged\<close>






section \<open>The usage statistics tool (\<^verbatim>\<open>browserbase_usage_stats\<close>)\<close>

datatype usage_scope = ScopeGlobal | ScopePerSession | ScopeAll

record UsageInput =
  input_sessionId :: "string option"
  input_scope :: "usage_scope option"
  input_reset :: "bool option"

text \<open>A string-valued optional parameter is truthy when it is present and not empty.\<close>

fun truthy :: "string option \<Rightarrow> bool" where
  "truthy None = False"
| "truthy (Some str) = (str \<noteq> [])"

text \<open>
  The \<^verbatim>\<open>result\<close> of the action is the snapshot itself or an object literal with one or
  both of its properties; a property that the literal lacks is \<^term>\<open>None\<close>.
  \<^verbatim>\<open>JSON.stringify(result, null, 2)\<close> writes the tree reached from the result through the
  store at the moment of the call; the JSON text is identified with the tree it denotes.
\<close>

record usage_result =
  result_global :: "containerRef option"
  result_perSession :: "sessionsRef option"

record usage_json =
  json_global :: "container option"
  json_perSession :: "(string \<times> session_json) list option"

definition JSON_stringify :: "usage_store \<Rightarrow> usage_result \<Rightarrow> usage_json" where
  "JSON_stringify s r =
     \<lparr>json_global = map_option (derefContainer s) (result_global r),
      json_perSession = map_option (derefSessions s) (result_perSession r)\<rparr>"

text \<open>
  The action of \<^verbatim>\<open>handleUsage\<close>: it returns the text of the tool result and the store it
  leaves. The order of the source is kept: the snapshot and the result are built first,
  the reset runs next, and the result is serialised in the \<^verbatim>\<open>return\<close> statement.
  \<open>selected\<close> is the object literal
  \<^verbatim>\<open>{[params.sessionId]: snapshot.perSession[params.sessionId] ?? {operations: {}}}\<close>,
  which is built only where \<^verbatim>\<open>params.sessionId\<close> is truthy; \<^verbatim>\<open>snapshot.perSession\<close> is the
  object \<^verbatim>\<open>perSessionUsage\<close>, and \<^verbatim>\<open>??\<close> replaces \<^verbatim>\<open>undefined\<close> only.
\<close>

definition handleUsage :: "UsageInput \<Rightarrow> usage_store \<Rightarrow> usage_json \<times> usage_store" where
  "handleUsage params s =
     (let snapshot = getUsageSnapshot;
          scope = (case input_scope params of None \<Rightarrow> ScopeAll | Some sc \<Rightarrow> sc);
          sid = (case input_sessionId params of None \<Rightarrow> [] | Some given \<Rightarrow> given);
          selected =
            SessionsLiteral sid
              (case getProperty (prototypeCallCount s) (perSessionUsage s) sid of
                 Undefined \<Rightarrow> Own \<lparr>operations = []\<rparr>
               | Own usage \<Rightarrow> Own usage
               | InheritedMethod \<Rightarrow> InheritedMethod
               | ObjectPrototype \<Rightarrow> ObjectPrototype
               | InheritedNaN \<Rightarrow> InheritedNaN);
          result =
            (if scope = ScopeGlobal
             then \<lparr>result_global = Some (global snapshot), result_perSession = None\<rparr>
             else if scope = ScopePerSession then
               (if truthy (input_sessionId params)
                then \<lparr>result_global = None, result_perSession = Some selected\<rparr>
                else \<lparr>result_global = None,
                      result_perSession = Some (perSession snapshot)\<rparr>)
             else if scope = ScopeAll \<and> truthy (input_sessionId params)
             then \<lparr>result_global = Some (global snapshot),
                   result_perSession = Some selected\<rparr>
             else \<lparr>result_global = Some (global snapshot),
                   result_perSession = Some (perSession snapshot)\<rparr>);
          s' = (if input_reset params = Some True then resetUsage s else s)
      in (JSON_stringify s' result, s'))"


section \<open>The screenshot resource store\<close>

text \<open>
  The module keeps two maps: \<^verbatim>\<open>screenshots\<close> from a screenshot name to its base64 payload
  and \<^verbatim>\<open>sessionIdToScreenshotNames\<close> from a session id to the set of names registered
  under it. A \<^verbatim>\<open>Set\<close> is a list without repetition in insertion order.
\<close>

record resource_store =
  screenshots :: "(string \<times> string) list"
  sessionIdToScreenshotNames :: "(string \<times> string list) list"

definition emptyResources :: resource_store where
  "emptyResources = \<lparr>screenshots = [], sessionIdToScreenshotNames = []\<rparr>"

definition set_add :: "string \<Rightarrow> string list \<Rightarrow> string list" where
  "set_add name names = (if name \<in> set names then names else names @ [name])"

definition registerScreenshot ::
  "string \<Rightarrow> string \<Rightarrow> string \<Rightarrow> resource_store \<Rightarrow> resource_store" where
  "registerScreenshot sid name base64 st =
     (let shots = AList.update name base64 (screenshots st);
          (index, names) =
             (case map_of (sessionIdToScreenshotNames st) sid of
                None \<Rightarrow> (AList.update sid [] (sessionIdToScreenshotNames st), [])
              | Some found \<Rightarrow> (sessionIdToScreenshotNames st, found))
      in \<lparr>screenshots = shots,
          sessionIdToScreenshotNames = AList.update sid (set_add name names) index\<rparr>)"

definition clearScreenshotsForSession :: "string \<Rightarrow> resource_store \<Rightarrow> resource_store" where
  "clearScreenshotsForSession sid st =
     (case map_of (sessionIdToScreenshotNames st) sid of
        None \<Rightarrow> st
      | Some names \<Rightarrow>
          \<lparr>screenshots = fold AList.delete names (screenshots st),
           sessionIdToScreenshotNames = AList.delete sid (sessionIdToScreenshotNames st)\<rparr>)"

definition clearAllScreenshots :: "resource_store \<Rightarrow> resource_store" where
  "clearAllScreenshots st = \<lparr>screenshots = [], sessionIdToScreenshotNames = []\<rparr>"

subsection \<open>The retry wrapper\<close>

text \<open>
  The options are JavaScript numbers: a finite double, read as the real number it stands
  for, \<^verbatim>\<open>NaN\<close>, \<^verbatim>\<open>Infinity\<close> or \<^verbatim>\<open>-Infinity\<close>. The loop variable \<^verbatim>\<open>attempt\<close> is a
  JavaScript number as well: it starts at zero, and \<^verbatim>\<open>attempt += 1\<close> adds one until the
  value is 2 to the power 53, which the addition leaves as it is. \<open>reached n retries\<close> is the test
  \<^verbatim>\<open>attempt >= retries\<close> after \<open>n\<close> increments; it is false for \<^verbatim>\<open>NaN\<close> and for
  \<^verbatim>\<open>Infinity\<close>. \<open>doubledDelay delay\<close> is \<^verbatim>\<open>Math.min(delay * 2, 1000)\<close>: doubling a double
  is exact unless it overflows, to \<^verbatim>\<open>Infinity\<close>, where the minimum is 1000 as it is for the
  real product, or to \<^verbatim>\<open>-Infinity\<close>.
\<close>

datatype number = Finite real | NotANumber | PlusInfinity | MinusInfinity

definition maxDouble :: real where
  "maxDouble = (2 ^ 53 - 1) * 2 ^ 971"

definition attemptValue :: "nat \<Rightarrow> nat" where
  "attemptValue n = min n (2 ^ 53)"

fun reached :: "nat \<Rightarrow> number \<Rightarrow> bool" where
  "reached n (Finite r) = (r \<le> real (attemptValue n))"
| "reached n NotANumber = False"
| "reached n PlusInfinity = False"
| "reached n MinusInfinity = True"

fun doubledDelay :: "number \<Rightarrow> number" where
  "doubledDelay (Finite d) =
     (if d * 2 < - maxDouble then MinusInfinity else Finite (min (d * 2) 1000))"
| "doubledDelay NotANumber = NotANumber"
| "doubledDelay PlusInfinity = Finite 1000"
| "doubledDelay MinusInfinity = MinusInfinity"

text \<open>
  \<^verbatim>\<open>retryClearScreenshotsForSession(sessionId, options)\<close> calls
  \<^verbatim>\<open>clearScreenshotsForSession\<close> in a \<^verbatim>\<open>try\<close> block inside \<^verbatim>\<open>while (true)\<close>. The purge
  under \<^verbatim>\<open>src\<close> never throws; the wrapper is written against failures of the call
  (\<^emph>\<open>transient failures in any consumer of the map\<close>, says its comment), so the model takes a
  fault schedule: \<open>faults n = Some e\<close> says that the call of attempt number \<open>n\<close> (counted
  from zero) throws \<open>e\<close> and leaves the maps as they were. The result records the outcome,
  the store, the delays passed to \<^verbatim>\<open>setTimeout\<close> in order, and the number of calls made.
  The loop need not end: the result is \<^term>\<open>None\<close> when it does not.
\<close>

record RetryOptions =
  retries :: "number option"
  initialDelayMs :: "number option"

record retry_result =
  retry_outcome :: "thrown + unit"
  retry_store :: resource_store
  retry_sleeps :: "number list"
  retry_attempts :: nat

partial_function (option) retryLoop ::
  "(nat \<Rightarrow> thrown option) \<Rightarrow> number \<Rightarrow> string \<Rightarrow> nat \<Rightarrow> number \<Rightarrow> number list \<Rightarrow>
     resource_store \<Rightarrow> retry_result option" where
  "retryLoop faults retries_v sid attempt delay slept st =
     (case faults attempt of
        None \<Rightarrow>
          Some \<lparr>retry_outcome = Inr (), retry_store = clearScreenshotsForSession sid st,
                retry_sleeps = slept, retry_attempts = attempt + 1\<rparr>
      | Some err \<Rightarrow>
          if reached attempt retries_v
          then Some \<lparr>retry_outcome = Inl (toError err), retry_store = st,
                      retry_sleeps = slept, retry_attempts = attempt + 1\<rparr>
          else retryLoop faults retries_v sid (attempt + 1) (doubledDelay delay)
                 (slept @ [delay]) st)"

definition retryClearScreenshotsForSession ::
  "(nat \<Rightarrow> thrown option) \<Rightarrow> string \<Rightarrow> RetryOptions \<Rightarrow> resource_store \<Rightarrow>
     retry_result option" where
  "retryClearScreenshotsForSession faults sid options st =
     (let retries_v = (case retries options of None \<Rightarrow> Finite 3 | Some r \<Rightarrow> r);
          initialDelayMs_v =
            (case initialDelayMs options of None \<Rightarrow> Finite 50 | Some d \<Rightarrow> d)
      in retryLoop faults retries_v sid 0 initialDelayMs_v [] st)"


section \<open>Closing a session (\<^verbatim>\<open>src/tools/session.ts\<close>)\<close>

subsection \<open>The replay fetcher\<close>

text \<open>
  The payload of the replay endpoint, as far as the fetcher reads it. The interfaces of
  the source promise every field; what arrives is whatever the endpoint sends, so a field
  whose access can throw (reading a property of \<^verbatim>\<open>undefined\<close>, iterating something that is
  not iterable) is optional here and \<^term>\<open>None\<close> makes the access throw a \<^verbatim>\<open>TypeError\<close>.
  \<^verbatim>\<open>timeMs\<close> is \<^term>\<open>None\<close> when \<^verbatim>\<open>typeof\<close> does not give \<^verbatim>\<open>"number"\<close>. Token counts are
  integers.
\<close>

record StagehandReplayTokenUsage =
  inputTokens :: int
  outputTokens :: int
  timeMs :: "int option"

record StagehandReplayAction =
  tokenUsage :: "StagehandReplayTokenUsage option"

record StagehandReplayPage =
  actions :: "StagehandReplayAction list option"

record StagehandReplayData =
  pages :: "StagehandReplayPage list option"

record StagehandReplayResponse =
  data :: "StagehandReplayData option"

record StagehandReplayTokenUsageTotals =
  totalInputTokens :: int
  totalOutputTokens :: int
  totalTimeMs :: int

text \<open>The body of the inner loop, for one action.\<close>

definition addAction ::
  "StagehandReplayAction \<Rightarrow> StagehandReplayTokenUsageTotals \<Rightarrow> StagehandReplayTokenUsageTotals"
  where
  "addAction action totals =
     (case tokenUsage action of
        None \<Rightarrow> totals
      | Some usage \<Rightarrow>
          (let t1 = totals\<lparr>totalInputTokens := totalInputTokens totals + inputTokens usage\<rparr>;
               t2 = t1\<lparr>totalOutputTokens := totalOutputTokens t1 + outputTokens usage\<rparr>
           in (case timeMs usage of
                 None \<Rightarrow> t2
               | Some ms \<Rightarrow> t2\<lparr>totalTimeMs := totalTimeMs t2 + ms\<rparr>)))"

text \<open>The outer loop over the pages; a page whose actions cannot be iterated throws.\<close>

fun aggregatePages ::
  "StagehandReplayPage list \<Rightarrow> StagehandReplayTokenUsageTotals \<Rightarrow>
     thrown + StagehandReplayTokenUsageTotals" where
  "aggregatePages [] totals = Inr totals"
| "aggregatePages (page # rest) totals =
     (case actions page of
        None \<Rightarrow> Inl typeError
      | Some acts \<Rightarrow> aggregatePages rest (fold addAction acts totals))"

text \<open>The statements of the \<^verbatim>\<open>try\<close> block once the body has been parsed.\<close>

definition aggregateReplay ::
  "StagehandReplayResponse \<Rightarrow> thrown + StagehandReplayTokenUsageTotals" where
  "aggregateReplay replayJson =
     (let totals = \<lparr>totalInputTokens = 0, totalOutputTokens = 0, totalTimeMs = 0\<rparr>
      in (case data replayJson of
            None \<Rightarrow> Inl typeError
          | Some d \<Rightarrow>
              (case pages d of
                 None \<Rightarrow> Inl typeError
               | Some ps \<Rightarrow> aggregatePages ps totals)))"

text \<open>
  The configuration and the process environment, as far as the fetcher reads them, and
  the network: \<^verbatim>\<open>fetch\<close> either rejects or gives a response, whose \<^verbatim>\<open>json()\<close> either
  rejects or gives the parsed body.
\<close>

record Config =
  browserbaseApiKey :: "string option"
  browserbaseProjectId :: "string option"
  modelApiKey :: "string option"

record process_env =
  GEMINI_API_KEY :: "string option"
  GOOGLE_API_KEY :: "string option"

type_synonym replay_network = "thrown + (thrown + StagehandReplayResponse)"

datatype log_line =
    SkippingReplayCall
  | FailedToParseReplay string
  | TotalTokenUsage int int
  | NoSessionFound string
  | ErrorCleaningUp string string
  | ContextResetToDefault string

definition fetchStagehandTokenUsageSummary ::
  "Config \<Rightarrow> process_env \<Rightarrow> replay_network \<Rightarrow> log_line list \<Rightarrow>
     (thrown + StagehandReplayTokenUsageTotals option) \<times> log_line list" where
  "fetchStagehandTokenUsageSummary config env network lines =
     (let apiKey = browserbaseApiKey config;
          projectId = browserbaseProjectId config;
          modelKey = (if truthy (modelApiKey config) then modelApiKey config
                      else if truthy (GEMINI_API_KEY env) then GEMINI_API_KEY env
                      else GOOGLE_API_KEY env)
      in if \<not> truthy apiKey \<or> \<not> truthy projectId \<or> \<not> truthy modelKey
         then (Inr None, lines @ [SkippingReplayCall])
         else (case network of
                 Inl rejected \<Rightarrow> (Inl rejected, lines)
               | Inr response \<Rightarrow>
                   (case (case response of
                            Inl notJson \<Rightarrow> Inl notJson
                          | Inr replayJson \<Rightarrow> aggregateReplay replayJson) of
                      Inl parseError \<Rightarrow>
                        (Inr None, lines @ [FailedToParseReplay (messageOf parseError)])
                    | Inr totals \<Rightarrow> (Inr (Some totals), lines))))"

subsection \<open>The close action\<close>

text \<open>
  The session manager is not part of the sources at hand, so what it answers is a
  parameter of the action: the current and the default session id, the outcome of
  \<^verbatim>\<open>getSession\<close> (it throws, or gives a session or nothing) and the outcome of
  \<^verbatim>\<open>cleanupSession\<close> (it throws or returns). Of a session only the presence of its
  Stagehand handle and its Browserbase session id are read.
\<close>

record BrowserSession =
  session_stagehand :: bool
  session_sessionId :: "string option"

record session_manager =
  currentSessionId :: string
  defaultSessionId :: string
  getSession :: "thrown + BrowserSession option"
  cleanupSession :: "thrown option"

text \<open>The local variables of the action that outlive its \<^verbatim>\<open>try\<close> statement.\<close>

record close_vars =
  cleanupSuccessful :: bool
  cleanupErrorMessage :: string
  browserbaseSessionId :: "string option"
  close_log :: "log_line list"

definition orElse :: "string \<Rightarrow> string \<Rightarrow> string" where
  "orElse str dflt = (if str \<noteq> [] then str else dflt)"

text \<open>The \<^verbatim>\<open>catch\<close> clause of the action.\<close>

definition catchCleanup :: "string \<Rightarrow> thrown \<Rightarrow> close_vars \<Rightarrow> close_vars" where
  "catchCleanup previousSessionId err v =
     v\<lparr>cleanupErrorMessage := messageOf err,
       close_log := close_log v @
         [ErrorCleaningUp (orElse previousSessionId ''default/unknown'') (messageOf err)]\<rparr>"

text \<open>Step 1: the \<^verbatim>\<open>try\<close> statement.\<close>

definition closeStep1 ::
  "session_manager \<Rightarrow> Config \<Rightarrow> process_env \<Rightarrow> replay_network \<Rightarrow> close_vars" where
  "closeStep1 sm config env network =
     (let previousSessionId = currentSessionId sm;
          v0 = \<lparr>cleanupSuccessful = False, cleanupErrorMessage = [],
                browserbaseSessionId = None, close_log = []\<rparr>;
          noSession = v0\<lparr>close_log :=
            [NoSessionFound (orElse previousSessionId ''default/unknown'')]\<rparr>
      in (case getSession sm of
            Inl err \<Rightarrow> catchCleanup previousSessionId err v0
          | Inr None \<Rightarrow> noSession
          | Inr (Some session) \<Rightarrow>
              if \<not> session_stagehand session then noSession
              else
                (let v1 = v0\<lparr>browserbaseSessionId := session_sessionId session\<rparr>
                 in (case cleanupSession sm of
                       Some err \<Rightarrow> catchCleanup previousSessionId err v1
                     | None \<Rightarrow>
                         (let v2 = v1\<lparr>cleanupSuccessful := True\<rparr>
                          in if truthy (browserbaseSessionId v2)
                             then
                               (case fetchStagehandTokenUsageSummary config env network
                                       (close_log v2) of
                                  (Inl err, lines) \<Rightarrow>
                                    catchCleanup previousSessionId err (v2\<lparr>close_log := lines\<rparr>)
                                | (Inr None, lines) \<Rightarrow> v2\<lparr>close_log := lines\<rparr>
                                | (Inr (Some totals), lines) \<Rightarrow>
                                    v2\<lparr>close_log := lines @
                                      [TotalTokenUsage (totalInputTokens totals)
                                         (totalOutputTokens totals)]\<rparr>)
                             else v2)))))"

text \<open>
  Steps 2 and 3: the line on the context reset is written, then the result is
  determined. The action returns the text of its single content item or throws.
\<close>

definition handleCloseSession ::
  "session_manager \<Rightarrow> Config \<Rightarrow> process_env \<Rightarrow> replay_network \<Rightarrow>
     (thrown + string) \<times> log_line list" where
  "handleCloseSession sm config env network =
     (let previousSessionId = currentSessionId sm;
          v = closeStep1 sm config env network;
          lines = close_log v @
            [ContextResetToDefault (orElse previousSessionId ''default/unknown'')]
      in if cleanupErrorMessage v \<noteq> [] \<and> \<not> cleanupSuccessful v
         then (Inl (Error
                 (''Failed to cleanup session (session ID was '' @
                  orElse previousSessionId ''default/unknown'' @ ''). Error: '' @
                  cleanupErrorMessage v @ ''. Session context has been reset to default.'')),
               lines)
         else if cleanupSuccessful v
         then (Inr (''Browserbase session ('' @ orElse previousSessionId ''default'' @
                    '') closed successfully. Context reset to default.'' @
                    (if truthy (browserbaseSessionId v) \<and>
                        previousSessionId \<noteq> defaultSessionId sm
                     then '' View replay at https://www.browserbase.com/sessions/'' @
                          (case browserbaseSessionId v of None \<Rightarrow> [] | Some b \<Rightarrow> b)
                     else [])),
               lines)
         else (Inr (if previousSessionId \<noteq> [] \<and> previousSessionId \<noteq> defaultSessionId sm
                    then ''No active session found for session ID '' @ [CHR 0x27] @
                         previousSessionId @ [CHR 0x27] @
                         ''. The context has been reset to default.''
                    else ''No active session found to close. Session context has been reset to default.''),
               lines))"


section \<open>Observations on the usage meter\<close>

text \<open>
  The notions below belong to the statements, not to the program. The first four name
  what one call does to a bucket and to a session's usage object, so that the effect of a
  call that returns can be written as two assignments.
\<close>

definition bump :: "bool \<Rightarrow> string \<Rightarrow> StagehandOperationStats \<Rightarrow> StagehandOperationStats" where
  "bump polluted tool st =
     st\<lparr>callCount := callCount st + 1,
        toolCallCounts := countToolCall polluted tool (toolCallCounts st)\<rparr>"

definition bucketOrFresh :: "StagehandOperationStats option \<Rightarrow> StagehandOperationStats" where
  "bucketOrFresh b = (case b of None \<Rightarrow> \<lparr>callCount = 0, toolCallCounts = []\<rparr> | Some st \<Rightarrow> st)"

definition sessionOrFresh :: "StagehandSessionUsage option \<Rightarrow> StagehandSessionUsage" where
  "sessionOrFresh u = (case u of None \<Rightarrow> \<lparr>operations = []\<rparr> | Some su \<Rightarrow> su)"

definition recordInSession ::
  "bool \<Rightarrow> StagehandUsageKey \<Rightarrow> StagehandSessionUsage \<Rightarrow> StagehandSessionUsage" where
  "recordInSession polluted k u =
     u\<lparr>operations :=
         AList.update (operation k)
           (bump polluted (toolName k) (bucketOrFresh (map_of (operations u) (operation k))))
           (operations u)\<rparr>"

text \<open>
  A name is inherited, for a plain object in a given store, when \<^verbatim>\<open>Object.prototype\<close> has a
  property of that name: one of its twelve own names, or \<^verbatim>\<open>callCount\<close> once the meter has
  written it there. A key is ordinary when none of its three strings is such a name.
\<close>

definition inheritsName :: "usage_store \<Rightarrow> string \<Rightarrow> bool" where
  "inheritsName s k \<longleftrightarrow>
     k \<in> set inheritedNames \<or> (prototypeCallCount s \<and> k = ''callCount'')"


text \<open>
  The counters. A call count is read with zero for a bucket that is absent; a tool count
  is read with zero for a bucket or a tool name that is absent, as \<^verbatim>\<open>?? 0\<close> reads it.
\<close>

definition globalCalls :: "usage_store \<Rightarrow> string \<Rightarrow> nat" where
  "globalCalls s op = (case map_of (globalUsage s) op of None \<Rightarrow> 0 | Some st \<Rightarrow> callCount st)"


definition sessionBucket :: "usage_store \<Rightarrow> string \<Rightarrow> string \<Rightarrow> StagehandOperationStats option" where
  "sessionBucket s sid op =
     (case map_of (perSessionUsage s) sid of None \<Rightarrow> None | Some u \<Rightarrow> map_of (operations u) op)"


text \<open>
  The sum, over the sessions present in \<^verbatim>\<open>perSessionUsage\<close>, of the call counts of one
  operation. A session without a bucket for the operation is dropped by
  \<^const>\<open>List.map_filter\<close>: it is absent from the sum.
\<close>

definition sessionSum :: "(string \<times> StagehandSessionUsage) list \<Rightarrow> string \<Rightarrow> nat" where
  "sessionSum sessions op =
     sum_list (List.map_filter
       (\<lambda>entry. map_option callCount (map_of (operations (snd entry)) op)) sessions)"

definition opCalls :: "string \<Rightarrow> StagehandSessionUsage \<Rightarrow> nat" where
  "opCalls op u = (case map_of (operations u) op of None \<Rightarrow> 0 | Some st \<Rightarrow> callCount st)"

definition meterInvariant :: "usage_store \<Rightarrow> bool" where
  "meterInvariant s \<longleftrightarrow>
     (\<forall>op. globalCalls s op = sessionSum (perSessionUsage s) op) \<and>
     distinct (map fst (perSessionUsage s)) \<and>
     (\<forall>sid op st. sessionBucket s sid op = Some st \<longrightarrow> 0 < callCount st)"

text \<open>Concrete inputs for the examples.\<close>

definition exampleCalls :: "StagehandUsageKey list" where
  "exampleCalls =
     [\<lparr>sessionId = ''s1'', toolName = ''navigate'', operation = ''nav''\<rparr>,
      \<lparr>sessionId = ''s2'', toolName = ''extract'', operation = ''extract''\<rparr>,
      \<lparr>sessionId = ''s1'', toolName = ''navigate'', operation = ''nav''\<rparr>,
      \<lparr>sessionId = ''s3'', toolName = ''click'', operation = ''nav''\<rparr>]"

definition navCall :: StagehandUsageKey where
  "navCall = \<lparr>sessionId = ''s1'', toolName = ''navigate'', operation = ''nav''\<rparr>"

definition oneCallStore :: usage_store where
  "oneCallStore = snd (recordStagehandCall navCall emptyUsage)"

text \<open>
  The same call as \<open>navCall\<close>, with an inherited name in the place of the session id, of
  the operation and of the tool name.
\<close>

definition constructorSession :: StagehandUsageKey where
  "constructorSession =
     \<lparr>sessionId = ''constructor'', toolName = ''navigate'', operation = ''nav''\<rparr>"

definition constructorOperation :: StagehandUsageKey where
  "constructorOperation =
     \<lparr>sessionId = ''s1'', toolName = ''navigate'', operation = ''constructor''\<rparr>"

definition protoTool :: StagehandUsageKey where
  "protoTool = \<lparr>sessionId = ''s1'', toolName = ''__proto__'', operation = ''nav''\<rparr>"


section \<open>Observations on the metrics log, the resource store and the retry wrapper\<close>


text \<open>
  The names registered under a session id, and the condition of claim C7 on a store: no
  name is registered under two different session ids.
\<close>

definition registeredUnder :: "resource_store \<Rightarrow> string \<Rightarrow> string list" where
  "registeredUnder st sid =
     (case map_of (sessionIdToScreenshotNames st) sid of None \<Rightarrow> [] | Some names \<Rightarrow> names)"

definition singleOwner :: "resource_store \<Rightarrow> bool" where
  "singleOwner st \<longleftrightarrow>
     (\<forall>entry \<in> set (sessionIdToScreenshotNames st).
        \<forall>other \<in> set (sessionIdToScreenshotNames st).
          fst entry \<noteq> fst other \<longrightarrow> (\<forall>name \<in> set (snd entry). name \<notin> set (snd other)))"

text \<open>
  The options after their defaults, and the delay of sleep number \<open>n\<close>, counted from
  zero: the initial delay, doubled and capped \<open>n\<close> times.
\<close>

definition retriesOf :: "RetryOptions \<Rightarrow> number" where
  "retriesOf opts = (case retries opts of None \<Rightarrow> Finite 3 | Some r \<Rightarrow> r)"

definition initialDelayOf :: "RetryOptions \<Rightarrow> number" where
  "initialDelayOf opts = (case initialDelayMs opts of None \<Rightarrow> Finite 50 | Some d \<Rightarrow> d)"

fun backoffDelay :: "number \<Rightarrow> nat \<Rightarrow> number" where
  "backoffDelay d 0 = d"
| "backoffDelay d (Suc n) = doubledDelay (backoffDelay d n)"

text \<open>
  The loop goes on after attempt \<open>m\<close> when that attempt fails and \<open>m\<close> has not reached
  \<^verbatim>\<open>retries\<close>; otherwise attempt \<open>m\<close> is where it stops.
\<close>

definition goesOn :: "(nat \<Rightarrow> thrown option) \<Rightarrow> number \<Rightarrow> nat \<Rightarrow> bool" where
  "goesOn faults r m \<longleftrightarrow> faults m \<noteq> None \<and> \<not> reached m r"

text \<open>
  Concrete inputs for the examples: three screenshots of two sessions, a purge that never
  fails, one that fails once, and one that always fails.
\<close>

definition threeScreenshots :: resource_store where
  "threeScreenshots =
     registerScreenshot ''s2'' ''c.png'' ''CCCC''
       (registerScreenshot ''s1'' ''b.png'' ''BBBB''
          (registerScreenshot ''s1'' ''a.png'' ''AAAA'' emptyResources))"

definition neverFails :: "nat \<Rightarrow> thrown option" where
  "neverFails n = None"

definition failsOnce :: "nat \<Rightarrow> thrown option" where
  "failsOnce n = (if n = 0 then Some (NonError ''busy'') else None)"

definition alwaysBusy :: "nat \<Rightarrow> thrown option" where
  "alwaysBusy n = Some (NonError ''busy'')"


section \<open>Observations on the replay fetcher and the close action\<close>

text \<open>
  The token-usage records of a payload, in the order of the pages and of their actions:
  an action without a record contributes nothing. \<open>pagesOf\<close> gives the pages of a payload
  every field of which can be read, and \<^term>\<open>None\<close> for a payload on which some access
  throws.
\<close>

definition tokenUsagesOf :: "StagehandReplayPage list \<Rightarrow> StagehandReplayTokenUsage list" where
  "tokenUsagesOf ps =
     concat (map (\<lambda>page. List.map_filter tokenUsage
                            (case actions page of None \<Rightarrow> [] | Some acts \<Rightarrow> acts)) ps)"

definition pagesOf :: "StagehandReplayResponse \<Rightarrow> StagehandReplayPage list option" where
  "pagesOf replayJson =
     (case data replayJson of
        None \<Rightarrow> None
      | Some d \<Rightarrow>
          (case pages d of
             None \<Rightarrow> None
           | Some ps \<Rightarrow> if list_all (\<lambda>page. actions page \<noteq> None) ps then Some ps else None))"

text \<open>The condition under which the fetcher calls the endpoint at all.\<close>

definition keysPresent :: "Config \<Rightarrow> process_env \<Rightarrow> bool" where
  "keysPresent config env \<longleftrightarrow>
     truthy (browserbaseApiKey config) \<and> truthy (browserbaseProjectId config) \<and>
     (truthy (modelApiKey config) \<or> truthy (GEMINI_API_KEY env) \<or> truthy (GOOGLE_API_KEY env))"

text \<open>The totals of a list of records, and the sum of two totals.\<close>

definition totalsOf :: "StagehandReplayTokenUsage list \<Rightarrow> StagehandReplayTokenUsageTotals" where
  "totalsOf usages =
     \<lparr>totalInputTokens = (\<Sum>u\<leftarrow>usages. inputTokens u),
      totalOutputTokens = (\<Sum>u\<leftarrow>usages. outputTokens u),
      totalTimeMs = sum_list (List.map_filter timeMs usages)\<rparr>"

definition addTotals ::
  "StagehandReplayTokenUsageTotals \<Rightarrow> StagehandReplayTokenUsageTotals \<Rightarrow>
     StagehandReplayTokenUsageTotals" where
  "addTotals a b =
     \<lparr>totalInputTokens = totalInputTokens a + totalInputTokens b,
      totalOutputTokens = totalOutputTokens a + totalOutputTokens b,
      totalTimeMs = totalTimeMs a + totalTimeMs b\<rparr>"

text \<open>
  Concrete inputs for the examples: a session manager whose current session exists, with
  a given outcome of its cleanup; a configuration with every key; an empty environment;
  and a payload of two pages with three actions, two of which carry token usage.
\<close>

definition closingManager :: "thrown option \<Rightarrow> session_manager" where
  "closingManager cleanup =
     \<lparr>currentSessionId = ''s1'', defaultSessionId = ''main'',
      getSession = Inr (Some \<lparr>session_stagehand = True, session_sessionId = Some ''bb-1''\<rparr>),
      cleanupSession = cleanup\<rparr>"

definition fullConfig :: Config where
  "fullConfig =
     \<lparr>browserbaseApiKey = Some ''key'', browserbaseProjectId = Some ''project'',
      modelApiKey = Some ''model''\<rparr>"

definition noEnv :: process_env where
  "noEnv = \<lparr>GEMINI_API_KEY = None, GOOGLE_API_KEY = None\<rparr>"

definition twoPages :: StagehandReplayResponse where
  "twoPages =
     \<lparr>data = Some \<lparr>pages = Some
        [\<lparr>actions = Some
            [\<lparr>tokenUsage = Some \<lparr>inputTokens = 100, outputTokens = 20, timeMs = Some 7\<rparr>\<rparr>,
             \<lparr>tokenUsage = None\<rparr>]\<rparr>,
         \<lparr>actions = Some
            [\<lparr>tokenUsage = Some \<lparr>inputTokens = 30, outputTokens = 5, timeMs = None\<rparr>\<rparr>]\<rparr>]\<rparr>\<rparr>"


section \<open>The usage meter: what one call and a reset do\<close>

text \<open>Deleting every own key of an object empties it, so a reset leaves both objects empty.\<close>

lemma fold_delete_all: "fst ` set al \<subseteq> set ks \<Longrightarrow> fold AList.delete ks al = []"
proof (induction ks arbitrary: al)
  case Nil
  then show ?case by (cases al) auto
next
  case (Cons k ks)
  have "fst ` set (AList.delete k al) \<subseteq> set ks"
    using Cons.prems by (auto simp: AList.delete_eq)
  then show ?case using Cons.IH by simp
qed

lemma resetUsage_empty: "resetUsage s = s\<lparr>globalUsage := [], perSessionUsage := []\<rparr>"
  by (simp add: resetUsage_def fold_delete_all)

text \<open>
  A name that the objects of the store do not inherit is read like a key of a map: the
  value when the object has it as an own key, \<^verbatim>\<open>undefined\<close> otherwise.
\<close>

lemma getProperty_ordinary:
  "\<not> inheritsName s k \<Longrightarrow>
   getProperty (prototypeCallCount s) obj k =
     (case map_of obj k of None \<Rightarrow> Undefined | Some v \<Rightarrow> Own v)"
  by (auto simp: getProperty_def inheritsName_def inheritedNames_def split: option.splits)

lemma getOrCreate_ordinary:
  "\<not> inheritsName s op \<Longrightarrow>
   getOrCreateOperationStats (prototypeCallCount s) cont op =
     (case map_of cont op of
        None \<Rightarrow> (AList.update op \<lparr>callCount = 0, toolCallCounts = []\<rparr> cont,
                 OwnBucket \<lparr>callCount = 0, toolCallCounts = []\<rparr>)
      | Some st \<Rightarrow> (cont, OwnBucket st))"
  by (simp add: getOrCreateOperationStats_def getProperty_ordinary Let_def split: option.splits)

text \<open>
  The effect of one call whose session id and operation are not inherited names, as two
  assignments: the bucket of the operation is replaced by its incremented copy in
  \<^verbatim>\<open>globalUsage\<close> and in the usage object of the session. The call returns.
\<close>

lemma record_ordinary:
  assumes "\<not> inheritsName s (sessionId k)" and "\<not> inheritsName s (operation k)"
  shows "recordStagehandCall k s =
     (Inr (),
      s\<lparr>globalUsage :=
           AList.update (operation k)
             (bump (prototypeCallCount s) (toolName k)
                (bucketOrFresh (map_of (globalUsage s) (operation k))))
             (globalUsage s),
         perSessionUsage :=
           AList.update (sessionId k)
             (recordInSession (prototypeCallCount s) k
                (sessionOrFresh (map_of (perSessionUsage s) (sessionId k))))
             (perSessionUsage s)\<rparr>)"
proof (cases "map_of (perSessionUsage s) (sessionId k)")
  case None
  show ?thesis
    by (cases "map_of (globalUsage s) (operation k)")
       (simp_all add: recordStagehandCall_def Let_def getOrCreate_ordinary[OF assms(2)]
          getProperty_ordinary[OF assms(1)] None bump_def bucketOrFresh_def
          sessionOrFresh_def recordInSession_def)
next
  case (Some u)
  show ?thesis
    by (cases "map_of (globalUsage s) (operation k)"; cases "map_of (operations u) (operation k)")
       (simp_all add: recordStagehandCall_def Let_def getOrCreate_ordinary[OF assms(2)]
          getProperty_ordinary[OF assms(1)] Some bump_def bucketOrFresh_def
          sessionOrFresh_def recordInSession_def)
qed

lemma store_after_ordinary:
  assumes "\<not> inheritsName s (sessionId k)" and "\<not> inheritsName s (operation k)"
  shows "fst (recordStagehandCall k s) = Inr ()"
    and "globalUsage (snd (recordStagehandCall k s)) =
           AList.update (operation k)
             (bump (prototypeCallCount s) (toolName k)
                (bucketOrFresh (map_of (globalUsage s) (operation k))))
             (globalUsage s)"
    and "perSessionUsage (snd (recordStagehandCall k s)) =
           AList.update (sessionId k)
             (recordInSession (prototypeCallCount s) k
                (sessionOrFresh (map_of (perSessionUsage s) (sessionId k))))
             (perSessionUsage s)"
    and "prototypeCallCount (snd (recordStagehandCall k s)) = prototypeCallCount s"
  by (simp_all add: record_ordinary[OF assms])

text \<open>The counters after such a call.\<close>

lemma callCount_bump: "callCount (bump polluted tool st) = callCount st + 1"
  by (simp add: bump_def)

lemma callCount_fresh: "callCount (bucketOrFresh b) = (case b of None \<Rightarrow> 0 | Some st \<Rightarrow> callCount st)"
  by (simp add: bucketOrFresh_def split: option.splits)



lemma sessionBucket_ordinary:
  assumes "\<not> inheritsName s (sessionId k)" and "\<not> inheritsName s (operation k)"
  shows "sessionBucket (snd (recordStagehandCall k s)) sid op =
     (if sid = sessionId k \<and> op = operation k
      then Some (bump (prototypeCallCount s) (toolName k) (bucketOrFresh (sessionBucket s sid op)))
      else sessionBucket s sid op)"
  by (simp add: sessionBucket_def store_after_ordinary[OF assms] update_conv'
        recordInSession_def sessionOrFresh_def split: option.splits)


subsection \<open>The global count and the sum of the session counts\<close>

text \<open>The sum over the sessions, one summand per session.\<close>

lemma sum_map_filter:
  "sum_list (List.map_filter f xs) = (\<Sum>x\<leftarrow>xs. case f x of None \<Rightarrow> 0 | Some (n::nat) \<Rightarrow> n)"
  by (induction xs) (auto simp: List.map_filter_simps split: option.splits)

lemma sessionSum_opCalls: "sessionSum sessions op = (\<Sum>entry\<leftarrow>sessions. opCalls op (snd entry))"
  unfolding sessionSum_def sum_map_filter opCalls_def
  by (rule arg_cong[where f = sum_list], rule map_cong) (auto split: option.splits)

lemma sum_update:
  fixes h :: "'v \<Rightarrow> nat"
  shows "(\<Sum>entry\<leftarrow>AList.update k v al. h (snd entry)) +
           (case map_of al k of None \<Rightarrow> 0 | Some old \<Rightarrow> h old) =
         (\<Sum>entry\<leftarrow>al. h (snd entry)) + h v"
  by (induction al) auto

lemma opCalls_recordInSession:
  "opCalls op (recordInSession polluted k u) = opCalls op u + (if op = operation k then 1 else 0)"
  by (simp add: opCalls_def recordInSession_def update_conv' callCount_bump callCount_fresh)

lemma opCalls_sessionOrFresh:
  "opCalls op (sessionOrFresh found) = (case found of None \<Rightarrow> 0 | Some u \<Rightarrow> opCalls op u)"
  by (simp add: sessionOrFresh_def opCalls_def split: option.splits)

lemma sessionSum_ordinary:
  assumes "\<not> inheritsName s (sessionId k)" and "\<not> inheritsName s (operation k)"
  shows "sessionSum (perSessionUsage (snd (recordStagehandCall k s))) op =
     sessionSum (perSessionUsage s) op + (if op = operation k then 1 else 0)"
  using sum_update[of "opCalls op" "sessionId k"
      "recordInSession (prototypeCallCount s) k
         (sessionOrFresh (map_of (perSessionUsage s) (sessionId k)))"
      "perSessionUsage s"]
  by (simp add: sessionSum_opCalls store_after_ordinary[OF assms] opCalls_recordInSession
        opCalls_sessionOrFresh)

text \<open>
  The invariant holds in the empty store and is kept by every call whose session id and
  operation are not inherited names, so it holds after any sequence of such calls.
\<close>

lemma meterInvariant_empty: "meterInvariant emptyUsage"
  by (simp add: meterInvariant_def emptyUsage_def globalCalls_def sessionSum_def
        sessionBucket_def List.map_filter_simps)

lemma meterInvariant_ordinary:
  assumes "meterInvariant s"
    and o: "\<not> inheritsName s (sessionId k)" "\<not> inheritsName s (operation k)"
  shows "meterInvariant (snd (recordStagehandCall k s))"
  unfolding meterInvariant_def
proof (intro conjI allI impI)
  fix op
  have "globalCalls (snd (recordStagehandCall k s)) op =
          globalCalls s op + (if op = operation k then 1 else 0)"
    by (simp add: globalCalls_def store_after_ordinary[OF o] update_conv' callCount_bump
          callCount_fresh)
  then show "globalCalls (snd (recordStagehandCall k s)) op =
        sessionSum (perSessionUsage (snd (recordStagehandCall k s))) op"
    using assms(1) by (simp add: meterInvariant_def sessionSum_ordinary[OF o])
next
  show "distinct (map fst (perSessionUsage (snd (recordStagehandCall k s))))"
    using assms(1) by (simp add: meterInvariant_def store_after_ordinary[OF o] distinct_update)
next
  fix sid op st
  assume "sessionBucket (snd (recordStagehandCall k s)) sid op = Some st"
  then show "0 < callCount st"
    using assms(1)
    by (auto simp: meterInvariant_def sessionBucket_ordinary[OF o] callCount_bump
          split: if_splits)
qed

lemma ordinary_sessions_invariant:
  assumes "\<forall>k \<in> set keys. sessionId k \<notin> set inheritedNames \<and> operation k \<notin> set inheritedNames"
    and "meterInvariant s" and "\<not> prototypeCallCount s"
  shows "meterInvariant (recordCalls keys s) \<and> \<not> prototypeCallCount (recordCalls keys s)"
  using assms
proof (induction keys arbitrary: s)
  case Nil
  then show ?case by (simp add: recordCalls_def)
next
  case (Cons k keys)
  have o: "\<not> inheritsName s (sessionId k)" "\<not> inheritsName s (operation k)"
    using Cons.prems by (simp_all add: inheritsName_def)
  have inv: "meterInvariant (snd (recordStagehandCall k s))"
    using Cons.prems(2) o by (rule meterInvariant_ordinary)
  have clean: "\<not> prototypeCallCount (snd (recordStagehandCall k s))"
    using Cons.prems(3) by (simp add: store_after_ordinary[OF o])
  have rest: "\<forall>k \<in> set keys. sessionId k \<notin> set inheritedNames \<and>
      operation k \<notin> set inheritedNames"
    using Cons.prems(1) by simp
  have "meterInvariant (recordCalls keys (snd (recordStagehandCall k s))) \<and>
      \<not> prototypeCallCount (recordCalls keys (snd (recordStagehandCall k s)))"
    using rest inv clean by (rule Cons.IH)
  then show ?case by (simp add: recordCalls_def)
qed

lemma ordinary_sessions_global_is_sum:
  assumes "\<forall>k \<in> set keys. sessionId k \<notin> set inheritedNames \<and> operation k \<notin> set inheritedNames"
  shows "globalCalls (recordCalls keys emptyUsage) op =
           sessionSum (perSessionUsage (recordCalls keys emptyUsage)) op"
  using ordinary_sessions_invariant[OF assms meterInvariant_empty]
  by (simp add: emptyUsage_def meterInvariant_def)

text \<open>The stores of the examples, evaluated.\<close>

lemmas meter_eval =
  recordStagehandCall_def getOrCreateOperationStats_def countToolCall_def getProperty_def
  inheritedMethodNames_def emptyUsage_def Let_def

lemma oneCallStore_eq:
  "oneCallStore =
     \<lparr>globalUsage = [(''nav'', \<lparr>callCount = 1, toolCallCounts = [(''navigate'', Count 1)]\<rparr>)],
      perSessionUsage =
        [(''s1'', \<lparr>operations =
            [(''nav'', \<lparr>callCount = 1, toolCallCounts = [(''navigate'', Count 1)]\<rparr>)]\<rparr>)],
      prototypeCallCount = False\<rparr>"
  by (simp add: oneCallStore_def navCall_def meter_eval)

lemma example_store:
  "recordCalls exampleCalls emptyUsage =
     \<lparr>globalUsage =
        [(''nav'', \<lparr>callCount = 3,
             toolCallCounts = [(''navigate'', Count 2), (''click'', Count 1)]\<rparr>),
         (''extract'', \<lparr>callCount = 1, toolCallCounts = [(''extract'', Count 1)]\<rparr>)],
      perSessionUsage =
        [(''s1'', \<lparr>operations =
            [(''nav'', \<lparr>callCount = 2, toolCallCounts = [(''navigate'', Count 2)]\<rparr>)]\<rparr>),
         (''s2'', \<lparr>operations =
            [(''extract'', \<lparr>callCount = 1, toolCallCounts = [(''extract'', Count 1)]\<rparr>)]\<rparr>),
         (''s3'', \<lparr>operations =
            [(''nav'', \<lparr>callCount = 1, toolCallCounts = [(''click'', Count 1)]\<rparr>)]\<rparr>)],
      prototypeCallCount = False\<rparr>"
  by (simp add: exampleCalls_def recordCalls_def meter_eval)

text \<open>
  A call with the session id \<^verbatim>\<open>constructor\<close> after one call for \<^verbatim>\<open>nav\<close>. The global bucket
  is found and incremented; then \<^verbatim>\<open>perSessionUsage[sessionId]\<close> is the inherited function
  \<^verbatim>\<open>Object\<close>, no usage object is created, \<^verbatim>\<open>.operations\<close> of the function is
  \<^verbatim>\<open>undefined\<close>, and reading \<^verbatim>\<open>container[operation]\<close> from it throws a
  \<^verbatim>\<open>TypeError\<close>. The session side of the store is as before.
\<close>

lemma constructorSession_eval:
  "recordStagehandCall constructorSession oneCallStore =
     (Inl typeError,
      \<lparr>globalUsage = [(''nav'', \<lparr>callCount = 2, toolCallCounts = [(''navigate'', Count 2)]\<rparr>)],
       perSessionUsage =
         [(''s1'', \<lparr>operations =
             [(''nav'', \<lparr>callCount = 1, toolCallCounts = [(''navigate'', Count 1)]\<rparr>)]\<rparr>)],
       prototypeCallCount = False\<rparr>)"
  by (simp add: oneCallStore_eq constructorSession_def meter_eval)

text \<open>
  Claim C1. The global call count of an operation is to equal the sum of its call counts
  over the sessions, after every sequence of calls from the empty store. It does not after
  the two calls \<^verbatim>\<open>{sessionId: 's1', toolName: 'navigate', operation: 'nav'}\<close> and
  \<^verbatim>\<open>{sessionId: 'constructor', toolName: 'navigate', operation: 'nav'}\<close>: the second call
  throws after it has incremented the global bucket, so the global map holds the call
  count 2 for \<^verbatim>\<open>nav\<close>, while the per-session map holds the single session \<^verbatim>\<open>s1\<close> with
  the call count 1, and the sum over the sessions is 1.
\<close>

theorem global_callCount_exceeds_session_sum:
  "fst (recordStagehandCall constructorSession (recordCalls [navCall] emptyUsage)) =
     Inl typeError \<and>
   map_of (globalUsage (recordCalls [navCall, constructorSession] emptyUsage)) ''nav'' =
     Some \<lparr>callCount = 2, toolCallCounts = [(''navigate'', Count 2)]\<rparr> \<and>
   perSessionUsage (recordCalls [navCall, constructorSession] emptyUsage) =
     [(''s1'', \<lparr>operations =
        [(''nav'', \<lparr>callCount = 1, toolCallCounts = [(''navigate'', Count 1)]\<rparr>)]\<rparr>)] \<and>
   sessionSum (perSessionUsage (recordCalls [navCall, constructorSession] emptyUsage)) ''nav'' = 1"
proof -
  have one: "recordCalls [navCall] emptyUsage = oneCallStore"
    by (simp add: recordCalls_def oneCallStore_def)
  have two: "recordCalls [navCall, constructorSession] emptyUsage =
      snd (recordStagehandCall constructorSession oneCallStore)"
    by (simp add: recordCalls_def oneCallStore_def)
  show ?thesis
    unfolding one two constructorSession_eval
    by (simp add: sessionSum_def List.map_filter_simps)
qed

subsection \<open>One call at inherited names\<close>

text \<open>
  Claim C9. One call is to add one to four counters, creating the buckets if absent. On
  the store after one call for \<^verbatim>\<open>nav\<close> by session \<^verbatim>\<open>s1\<close> with the tool
  \<^verbatim>\<open>navigate\<close>: with the session id \<^verbatim>\<open>constructor\<close> the call throws, the two global
  counters have moved and no session counter has; with the operation \<^verbatim>\<open>constructor\<close> the
  call throws, no bucket is created and no counter of the store moves; with the tool name
  \<^verbatim>\<open>__proto__\<close> the call returns and both call counts have moved, but the assignment to
  \<^verbatim>\<open>toolCallCounts['__proto__']\<close> is dropped, so no tool counter has moved.
\<close>

theorem recordStagehandCall_inherited_names:
  "recordStagehandCall constructorSession oneCallStore =
     (Inl typeError,
      oneCallStore\<lparr>globalUsage :=
        [(''nav'', \<lparr>callCount = 2, toolCallCounts = [(''navigate'', Count 2)]\<rparr>)]\<rparr>) \<and>
   recordStagehandCall constructorOperation oneCallStore = (Inl typeError, oneCallStore) \<and>
   recordStagehandCall protoTool oneCallStore =
     (Inr (),
      \<lparr>globalUsage = [(''nav'', \<lparr>callCount = 2, toolCallCounts = [(''navigate'', Count 1)]\<rparr>)],
       perSessionUsage =
         [(''s1'', \<lparr>operations =
             [(''nav'', \<lparr>callCount = 2, toolCallCounts = [(''navigate'', Count 1)]\<rparr>)]\<rparr>)],
       prototypeCallCount = False\<rparr>)"
proof (intro conjI)
  show "recordStagehandCall constructorSession oneCallStore =
     (Inl typeError,
      oneCallStore\<lparr>globalUsage :=
        [(''nav'', \<lparr>callCount = 2, toolCallCounts = [(''navigate'', Count 2)]\<rparr>)]\<rparr>)"
    unfolding constructorSession_eval by (simp add: oneCallStore_eq)
  show "recordStagehandCall constructorOperation oneCallStore = (Inl typeError, oneCallStore)"
    by (simp add: oneCallStore_eq constructorOperation_def meter_eval)
  show "recordStagehandCall protoTool oneCallStore =
     (Inr (),
      \<lparr>globalUsage = [(''nav'', \<lparr>callCount = 2, toolCallCounts = [(''navigate'', Count 1)]\<rparr>)],
       perSessionUsage =
         [(''s1'', \<lparr>operations =
             [(''nav'', \<lparr>callCount = 2, toolCallCounts = [(''navigate'', Count 1)]\<rparr>)]\<rparr>)],
       prototypeCallCount = False\<rparr>)"
    by (simp add: oneCallStore_eq protoTool_def meter_eval)
qed

section \<open>The usage statistics tool\<close>

text \<open>A snapshot refers to the two objects of the store; read at once, it shows their entries.\<close>

lemma snapshot_reads_store:
  "derefContainer s (global getUsageSnapshot) = globalUsage s \<and>
   derefSessions s (perSession getUsageSnapshot) =
     map (\<lambda>entry. (fst entry, SessionJson (snd entry))) (perSessionUsage s)"
  by (simp add: getUsageSnapshot_def derefContainer_def derefSessions_def)

text \<open>
  Claim C8. After \<^verbatim>\<open>resetUsage()\<close>, a snapshot taken at once has an empty global map and an
  empty per-session map: read directly from \<^verbatim>\<open>getUsageSnapshot()\<close>, and through the tool
  with scope \<^verbatim>\<open>all\<close>, given or by default, and no session filter.
\<close>

theorem reset_then_snapshot_empty:
  "derefContainer (resetUsage s) (global getUsageSnapshot) = [] \<and>
   derefSessions (resetUsage s) (perSession getUsageSnapshot) = [] \<and>
   fst (handleUsage \<lparr>input_sessionId = None, input_scope = Some ScopeAll, input_reset = r\<rparr>
          (resetUsage s)) =
     \<lparr>json_global = Some [], json_perSession = Some []\<rparr> \<and>
   fst (handleUsage \<lparr>input_sessionId = None, input_scope = None, input_reset = r\<rparr>
          (resetUsage s)) =
     \<lparr>json_global = Some [], json_perSession = Some []\<rparr>"
  by (simp add: handleUsage_def Let_def JSON_stringify_def snapshot_reads_store
        resetUsage_empty)

text \<open>
  With \<^verbatim>\<open>reset\<close> set, both objects of the store are empty afterwards, and whatever the
  result holds by reference is serialised after the reset: its global part, when present,
  is empty.
\<close>

lemma handleUsage_reset_store:
  "input_reset p = Some True \<Longrightarrow>
   snd (handleUsage p s) = s\<lparr>globalUsage := [], perSessionUsage := []\<rparr>"
  by (simp add: handleUsage_def Let_def resetUsage_empty)

lemma handleUsage_reset_global:
  "input_reset p = Some True \<Longrightarrow> json_global (fst (handleUsage p s)) = Some g \<Longrightarrow> g = []"
  by (auto simp: handleUsage_def Let_def resetUsage_empty JSON_stringify_def
        getUsageSnapshot_def derefContainer_def split: if_splits)

text \<open>
  Claim C3. The tool is to return the counters as they were before the reset. It does not:
  the result refers to the module-level objects, \<^verbatim>\<open>resetUsage()\<close> empties these very
  objects, and \<^verbatim>\<open>JSON.stringify\<close> runs afterwards. After one recorded call, the scope
  \<^verbatim>\<open>global\<close> with \<^verbatim>\<open>reset\<close> returns an empty global map, where the same request without
  \<^verbatim>\<open>reset\<close> returns the bucket of the call; the scope \<^verbatim>\<open>all\<close> with \<^verbatim>\<open>reset\<close> returns two
  empty maps. The store is empty afterwards, as the claim says.
\<close>

theorem handleUsage_reset_serialises_cleared_store:
  "handleUsage \<lparr>input_sessionId = None, input_scope = Some ScopeGlobal, input_reset = Some True\<rparr>
     oneCallStore =
     (\<lparr>json_global = Some [], json_perSession = None\<rparr>, emptyUsage) \<and>
   handleUsage \<lparr>input_sessionId = None, input_scope = Some ScopeGlobal, input_reset = None\<rparr>
     oneCallStore =
     (\<lparr>json_global =
         Some [(''nav'', \<lparr>callCount = 1, toolCallCounts = [(''navigate'', Count 1)]\<rparr>)],
       json_perSession = None\<rparr>, oneCallStore) \<and>
   handleUsage \<lparr>input_sessionId = None, input_scope = Some ScopeAll, input_reset = Some True\<rparr>
     oneCallStore =
     (\<lparr>json_global = Some [], json_perSession = Some []\<rparr>, emptyUsage)"
  by (simp add: handleUsage_def Let_def JSON_stringify_def getUsageSnapshot_def
        derefContainer_def derefSessions_def resetUsage_empty emptyUsage_def oneCallStore_eq)

text \<open>
  Claim C10 at the empty session id. The empty string is absent from the per-session
  map, but it is falsy, so the tool takes the branch without a session filter and returns
  the whole per-session map, which has no entry for it.
\<close>

theorem usage_stats_empty_sessionId_counterexample:
  "map_of (perSessionUsage oneCallStore) [] = None \<and>
   json_perSession (fst (handleUsage
      \<lparr>input_sessionId = Some [], input_scope = Some ScopePerSession, input_reset = None\<rparr>
      oneCallStore)) =
     Some [(''s1'', SessionJson \<lparr>operations =
            [(''nav'', \<lparr>callCount = 1, toolCallCounts = [(''navigate'', Count 1)]\<rparr>)]\<rparr>)] \<and>
   json_perSession (fst (handleUsage
      \<lparr>input_sessionId = Some [], input_scope = Some ScopePerSession, input_reset = None\<rparr>
      oneCallStore)) \<noteq> Some [([], SessionJson \<lparr>operations = []\<rparr>)]"
  by (simp add: handleUsage_def Let_def JSON_stringify_def getUsageSnapshot_def
        derefContainer_def derefSessions_def oneCallStore_eq)

text \<open>
  A session id that is absent from the per-session map but inherited by it is found by
  \<^verbatim>\<open>snapshot.perSession[params.sessionId]\<close>, so the default \<^verbatim>\<open>{ operations: {} }\<close> is not taken. For
  \<^verbatim>\<open>constructor\<close> the value is a function, which \<^verbatim>\<open>JSON.stringify\<close> leaves out: the
  per-session map of the result is empty. For \<^verbatim>\<open>__proto__\<close> the value is
  \<^verbatim>\<open>Object.prototype\<close>, which the computed key makes an own property of the literal and
  which is serialised as an object of its own enumerable properties.
\<close>

lemma usage_stats_inherited_sessionId:
  "json_perSession (fst (handleUsage
      \<lparr>input_sessionId = Some ''constructor'', input_scope = Some ScopePerSession,
       input_reset = None\<rparr> oneCallStore)) = Some [] \<and>
   json_perSession (fst (handleUsage
      \<lparr>input_sessionId = Some ''__proto__'', input_scope = Some ScopePerSession,
       input_reset = None\<rparr> oneCallStore)) = Some [(''__proto__'', PrototypeJson False)]"
  by (simp add: handleUsage_def Let_def JSON_stringify_def getUsageSnapshot_def
        derefSessions_def oneCallStore_eq getProperty_def inheritedMethodNames_def)

text \<open>
  Claim C10, amended. For every usage state and every non-empty session id that is absent
  from the per-session map and is not a name the map inherits from its prototype, the tool
  called with that session id and a scope other than \<^verbatim>\<open>global\<close> (\<^verbatim>\<open>perSession\<close>,
  \<^verbatim>\<open>all\<close>, or none, which means \<^verbatim>\<open>all\<close>) returns a per-session map whose only entry
  gives that session the empty operations object. No entry for the session id is inserted
  into the meter, and without \<^verbatim>\<open>reset\<close> the meter is left as it was.
\<close>

theorem usage_stats_unknown_session:
  assumes "map_of (perSessionUsage s) sid = None" and "sid \<noteq> []"
    and "\<not> inheritsName s sid" and "sc \<noteq> Some ScopeGlobal"
  shows "json_perSession (fst (handleUsage
            \<lparr>input_sessionId = Some sid, input_scope = sc, input_reset = r\<rparr> s)) =
           Some [(sid, SessionJson \<lparr>operations = []\<rparr>)] \<and>
         map_of (perSessionUsage (snd (handleUsage
            \<lparr>input_sessionId = Some sid, input_scope = sc, input_reset = r\<rparr> s))) sid = None \<and>
         (r \<noteq> Some True \<longrightarrow>
            snd (handleUsage \<lparr>input_sessionId = Some sid, input_scope = sc, input_reset = r\<rparr> s)
              = s)"
proof -
  have sc: "sc = None \<or> sc = Some ScopePerSession \<or> sc = Some ScopeAll"
    using assms(4) by (cases sc) (auto intro: usage_scope.exhaust)
  have read: "getProperty (prototypeCallCount s) (perSessionUsage s) sid = Undefined"
    using assms(1,3) by (simp add: getProperty_ordinary)
  show ?thesis
    using sc assms(1,2)
    by (auto simp: handleUsage_def Let_def JSON_stringify_def getUsageSnapshot_def
          derefSessions_def resetUsage_empty read)
qed

text \<open>The example: session \<^verbatim>\<open>s9\<close> is unknown to a store that has seen one call of session \<^verbatim>\<open>s1\<close>.\<close>

theorem usage_stats_unknown_session_witness:
  "map_of (perSessionUsage oneCallStore) ''s9'' = None \<and> ''s9'' \<noteq> [] \<and>
   \<not> inheritsName oneCallStore ''s9'' \<and> Some ScopeAll \<noteq> Some ScopeGlobal \<and>
   json_perSession (fst (handleUsage
      \<lparr>input_sessionId = Some ''s9'', input_scope = Some ScopeAll, input_reset = None\<rparr>
      oneCallStore)) = Some [(''s9'', SessionJson \<lparr>operations = []\<rparr>)] \<and>
   snd (handleUsage
      \<lparr>input_sessionId = Some ''s9'', input_scope = Some ScopeAll, input_reset = None\<rparr>
      oneCallStore) = oneCallStore"
proof -
  have h1: "map_of (perSessionUsage oneCallStore) ''s9'' = None"
    by (simp add: oneCallStore_eq)
  have h2: "''s9'' \<noteq> []" by simp
  have h3: "\<not> inheritsName oneCallStore ''s9''"
    by (simp add: inheritsName_def inheritedNames_def inheritedMethodNames_def oneCallStore_eq)
  have h4: "Some ScopeAll \<noteq> Some ScopeGlobal" by simp
  show ?thesis
    using h1 h2 h3 h4 usage_stats_unknown_session[OF h1 h2 h3 h4, of None] by simp
qed

section \<open>The second version of the meter: metrics are logged, not accumulated\<close>





section \<open>The screenshot resource store\<close>

text \<open>
  Registering a screenshot stores its payload and puts its name under the session; the
  names under other sessions stay as they are.
\<close>

lemma registerScreenshot_registered:
  "map_of (screenshots (registerScreenshot sid name base64 st)) name = Some base64 \<and>
   name \<in> set (registeredUnder (registerScreenshot sid name base64 st) sid)"
  by (cases "map_of (sessionIdToScreenshotNames st) sid")
     (simp_all add: registerScreenshot_def registeredUnder_def set_add_def update_conv' Let_def)

lemma registerScreenshot_others:
  "other \<noteq> sid \<Longrightarrow>
   registeredUnder (registerScreenshot sid name base64 st) other = registeredUnder st other"
  by (cases "map_of (sessionIdToScreenshotNames st) sid")
     (simp_all add: registerScreenshot_def registeredUnder_def update_conv' Let_def)

text \<open>The purge removes the names of the session, and only those.\<close>

lemma map_of_fold_delete:
  "map_of (fold AList.delete names al) name =
     (if name \<in> set names then None else map_of al name)"
  by (induction names arbitrary: al) (auto simp: delete_conv')

lemma clear_screenshots:
  "map_of (screenshots (clearScreenshotsForSession sid st)) name =
     (if name \<in> set (registeredUnder st sid) then None else map_of (screenshots st) name)"
  by (simp add: clearScreenshotsForSession_def registeredUnder_def map_of_fold_delete
        split: option.splits)

lemma clear_index:
  "map_of (sessionIdToScreenshotNames (clearScreenshotsForSession sid st)) other =
     (if other = sid then None else map_of (sessionIdToScreenshotNames st) other)"
  by (simp add: clearScreenshotsForSession_def delete_conv' split: option.splits)

lemma singleOwner_disjoint:
  assumes "singleOwner st" and "other \<noteq> sid" and "name \<in> set (registeredUnder st other)"
  shows "name \<notin> set (registeredUnder st sid)"
proof
  assume in_sid: "name \<in> set (registeredUnder st sid)"
  from assms(3) obtain names' where
    o: "map_of (sessionIdToScreenshotNames st) other = Some names'" "name \<in> set names'"
    by (cases "map_of (sessionIdToScreenshotNames st) other") (auto simp: registeredUnder_def)
  from in_sid obtain names where
    s: "map_of (sessionIdToScreenshotNames st) sid = Some names" "name \<in> set names"
    by (cases "map_of (sessionIdToScreenshotNames st) sid") (auto simp: registeredUnder_def)
  have "(other, names') \<in> set (sessionIdToScreenshotNames st)"
    and "(sid, names) \<in> set (sessionIdToScreenshotNames st)"
    using o(1) s(1) by (auto dest: map_of_SomeD)
  then show False
    using assms(1,2) o(2) s(2) unfolding singleOwner_def by fastforce
qed

subsection \<open>The retry loop\<close>

text \<open>The delays of the sleeps that follow a given one.\<close>

lemma backoffDelay_shift: "backoffDelay (doubledDelay d) n = backoffDelay d (Suc n)"
  by (induction n) simp_all

lemma map_backoff_Suc:
  "map (backoffDelay d) [0..<Suc k] = d # map (backoffDelay (doubledDelay d)) [0..<k]"
  by (simp add: upt_conv_Cons map_Suc_upt[symmetric] backoffDelay_shift
        del: upt_Suc backoffDelay.simps(2))

text \<open>
  A loop that goes on for \<open>k\<close> attempts and stops at the next one returns, with the
  outcome of that attempt, the sleeps made so far and the number of calls.
\<close>

lemma retryLoop_stops:
  assumes "\<forall>m. attempt \<le> m \<and> m < attempt + k \<longrightarrow> goesOn faults r m"
    and "\<not> goesOn faults r (attempt + k)"
  shows "retryLoop faults r sid attempt delay slept st =
     Some \<lparr>retry_outcome =
              (case faults (attempt + k) of None \<Rightarrow> Inr () | Some err \<Rightarrow> Inl (toError err)),
           retry_store =
              (case faults (attempt + k) of
                 None \<Rightarrow> clearScreenshotsForSession sid st | Some err \<Rightarrow> st),
           retry_sleeps = slept @ map (backoffDelay delay) [0..<k],
           retry_attempts = attempt + k + 1\<rparr>"
  using assms
proof (induction k arbitrary: attempt delay slept)
  case 0
  then show ?case
    by (subst retryLoop.simps) (auto simp: goesOn_def split: option.splits)
next
  case (Suc k)
  have on: "goesOn faults r attempt" using Suc.prems(1) by simp
  then obtain err where err: "faults attempt = Some err" and nr: "\<not> reached attempt r"
    by (auto simp: goesOn_def)
  have step: "retryLoop faults r sid attempt delay slept st =
      retryLoop faults r sid (attempt + 1) (doubledDelay delay) (slept @ [delay]) st"
    by (subst retryLoop.simps) (simp add: err nr)
  have a: "\<forall>m. attempt + 1 \<le> m \<and> m < attempt + 1 + k \<longrightarrow> goesOn faults r m"
    using Suc.prems(1) by simp
  have b: "\<not> goesOn faults r (attempt + 1 + k)"
    using Suc.prems(2) by simp
  show ?case
    unfolding step Suc.IH[OF a b] map_backoff_Suc by simp
qed

text \<open>
  A loop that returns has stopped somewhere, and it stops at the first attempt where it
  does not go on; so it fails to return exactly when it goes on after every attempt.
\<close>

lemma retryLoop_returned_stops:
  assumes "retryLoop faults r sid attempt delay slept st = Some res"
  shows "\<exists>m \<ge> attempt. \<not> goesOn faults r m"
proof (rule retryLoop.raw_induct[where P =
      "\<lambda>faults r sid attempt delay slept st res. \<exists>m \<ge> attempt. \<not> goesOn faults r m",
      OF _ assms])
  fix loop :: "(nat \<Rightarrow> thrown option) \<Rightarrow> number \<Rightarrow> string \<Rightarrow> nat \<Rightarrow> number \<Rightarrow> number list \<Rightarrow>
     resource_store \<Rightarrow> retry_result option"
  fix faults r sid attempt delay slept st res
  assume IH: "\<And>faults r sid attempt delay slept st res.
      loop faults r sid attempt delay slept st = Some res \<Longrightarrow>
      \<exists>m \<ge> attempt. \<not> goesOn faults r m"
  assume body: "(case faults attempt of
        None \<Rightarrow>
          Some \<lparr>retry_outcome = Inr (), retry_store = clearScreenshotsForSession sid st,
                retry_sleeps = slept, retry_attempts = attempt + 1\<rparr>
      | Some err \<Rightarrow>
          if reached attempt r
          then Some \<lparr>retry_outcome = Inl (toError err), retry_store = st,
                      retry_sleeps = slept, retry_attempts = attempt + 1\<rparr>
          else loop faults r sid (attempt + 1) (doubledDelay delay) (slept @ [delay]) st) =
       Some res"
  show "\<exists>m \<ge> attempt. \<not> goesOn faults r m"
  proof (cases "goesOn faults r attempt")
    case False
    then show ?thesis by (intro exI[of _ attempt]) simp
  next
    case True
    then obtain err where "faults attempt = Some err" "\<not> reached attempt r"
      by (auto simp: goesOn_def)
    with body have "loop faults r sid (attempt + 1) (doubledDelay delay) (slept @ [delay]) st
        = Some res"
      by simp
    from IH[OF this] obtain m where "m \<ge> attempt + 1" "\<not> goesOn faults r m" by blast
    then show ?thesis by (intro exI[of _ m]) simp
  qed
qed

lemma first_stop:
  assumes "\<exists>m \<ge> attempt. \<not> goesOn faults r m"
  obtains k where "\<forall>m. attempt \<le> m \<and> m < attempt + k \<longrightarrow> goesOn faults r m"
    and "\<not> goesOn faults r (attempt + k)"
proof -
  define P where "P j \<longleftrightarrow> \<not> goesOn faults r (attempt + j)" for j
  from assms obtain m where "m \<ge> attempt" "\<not> goesOn faults r m" by blast
  then have "P (m - attempt)" by (simp add: P_def)
  then have least: "P (LEAST j. P j)" by (rule LeastI)
  have below: "\<not> P j" if "j < (LEAST j. P j)" for j
    using that by (rule not_less_Least)
  show ?thesis
  proof (rule that[of "LEAST j. P j"])
    show "\<forall>m. attempt \<le> m \<and> m < attempt + (LEAST j. P j) \<longrightarrow> goesOn faults r m"
    proof (intro allI impI)
      fix m assume m: "attempt \<le> m \<and> m < attempt + (LEAST j. P j)"
      then have "m - attempt < (LEAST j. P j)" by linarith
      from below[OF this] m show "goesOn faults r m" by (simp add: P_def)
    qed
    show "\<not> goesOn faults r (attempt + (LEAST j. P j))"
      using least by (simp add: P_def)
  qed
qed

lemma retryLoop_None:
  "retryLoop faults r sid attempt delay slept st = None \<longleftrightarrow>
   (\<forall>m \<ge> attempt. goesOn faults r m)"
proof
  assume none: "retryLoop faults r sid attempt delay slept st = None"
  show "\<forall>m \<ge> attempt. goesOn faults r m"
  proof (rule ccontr)
    assume "\<not> (\<forall>m \<ge> attempt. goesOn faults r m)"
    then have "\<exists>m \<ge> attempt. \<not> goesOn faults r m" by blast
    then obtain k where "\<forall>m. attempt \<le> m \<and> m < attempt + k \<longrightarrow> goesOn faults r m"
      and "\<not> goesOn faults r (attempt + k)"
      by (rule first_stop)
    from retryLoop_stops[OF this] none show False by simp
  qed
next
  assume all: "\<forall>m \<ge> attempt. goesOn faults r m"
  show "retryLoop faults r sid attempt delay slept st = None"
  proof (cases "retryLoop faults r sid attempt delay slept st")
    case None
    then show ?thesis .
  next
    case (Some res)
    from retryLoop_returned_stops[OF this] all show ?thesis by blast
  qed
qed

lemma retryLoop_result:
  assumes "retryLoop faults r sid attempt delay slept st = Some res"
  shows "attempt < retry_attempts res \<and>
         (\<forall>m. attempt \<le> m \<and> m < retry_attempts res - 1 \<longrightarrow> goesOn faults r m) \<and>
         \<not> goesOn faults r (retry_attempts res - 1) \<and>
         retry_outcome res =
           (case faults (retry_attempts res - 1) of
              None \<Rightarrow> Inr () | Some err \<Rightarrow> Inl (toError err)) \<and>
         retry_store res =
           (case faults (retry_attempts res - 1) of
              None \<Rightarrow> clearScreenshotsForSession sid st | Some err \<Rightarrow> st) \<and>
         retry_sleeps res =
           slept @ map (backoffDelay delay) [0..<retry_attempts res - 1 - attempt]"
proof -
  from retryLoop_returned_stops[OF assms]
  obtain k where on: "\<forall>m. attempt \<le> m \<and> m < attempt + k \<longrightarrow> goesOn faults r m"
    and stop: "\<not> goesOn faults r (attempt + k)"
    by (rule first_stop)
  from retryLoop_stops[OF on stop, of sid delay slept st] assms
  have res: "res = \<lparr>retry_outcome =
              (case faults (attempt + k) of None \<Rightarrow> Inr () | Some err \<Rightarrow> Inl (toError err)),
           retry_store =
              (case faults (attempt + k) of
                 None \<Rightarrow> clearScreenshotsForSession sid st | Some err \<Rightarrow> st),
           retry_sleeps = slept @ map (backoffDelay delay) [0..<k],
           retry_attempts = attempt + k + 1\<rparr>"
    by simp
  show ?thesis
    using on stop by (simp add: res)
qed

text \<open>The wrapper purges exactly when it returns normally.\<close>

lemma retry_store_returned:
  assumes "retryClearScreenshotsForSession faults sid opts st = Some res"
    and "retry_outcome res = Inr ()"
  shows "retry_store res = clearScreenshotsForSession sid st"
proof -
  have loop: "retryLoop faults (retriesOf opts) sid 0 (initialDelayOf opts) [] st = Some res"
    using assms(1)
    by (simp add: retryClearScreenshotsForSession_def retriesOf_def initialDelayOf_def)
  from retryLoop_result[OF loop] assms(2) show ?thesis
    by (cases "faults (retry_attempts res - 1)") simp_all
qed

text \<open>
  Claim C7. Let the store be such that no screenshot name is registered under two session
  ids, and let \<open>st'\<close> be the store after \<^verbatim>\<open>clearScreenshotsForSession(sessionId)\<close> has
  completed, called directly or through the retry wrapper when the wrapper returns
  normally. Then no name registered under the session remains in \<^verbatim>\<open>screenshots\<close>, the
  index has no entry for the session, and for every other session the index entry and the
  screenshots registered under it are as before.
\<close>

theorem clearScreenshotsForSession_purges_session:
  assumes "singleOwner st"
    and "st' = clearScreenshotsForSession sid st \<or>
         (\<exists>res. retryClearScreenshotsForSession faults sid opts st = Some res \<and>
            retry_outcome res = Inr () \<and> st' = retry_store res)"
  shows "(\<forall>name \<in> set (registeredUnder st sid). map_of (screenshots st') name = None) \<and>
         map_of (sessionIdToScreenshotNames st') sid = None \<and>
         (\<forall>other. other \<noteq> sid \<longrightarrow>
            map_of (sessionIdToScreenshotNames st') other =
              map_of (sessionIdToScreenshotNames st) other \<and>
            (\<forall>name \<in> set (registeredUnder st other).
               map_of (screenshots st') name = map_of (screenshots st) name))"
proof -
  have st': "st' = clearScreenshotsForSession sid st"
    using assms(2) retry_store_returned by auto
  show ?thesis
    unfolding st'
    using singleOwner_disjoint[OF assms(1)]
    by (auto simp: clear_screenshots clear_index)
qed

text \<open>The example: the first purge attempt fails, the retry succeeds.\<close>

lemma threeScreenshots_eq:
  "threeScreenshots =
     \<lparr>screenshots = [(''a.png'', ''AAAA''), (''b.png'', ''BBBB''), (''c.png'', ''CCCC'')],
      sessionIdToScreenshotNames = [(''s1'', [''a.png'', ''b.png'']), (''s2'', [''c.png''])]\<rparr>"
  by (simp add: threeScreenshots_def registerScreenshot_def emptyResources_def set_add_def Let_def)

lemma retry_failsOnce:
  "retryClearScreenshotsForSession failsOnce ''s1'' \<lparr>retries = None, initialDelayMs = None\<rparr>
     threeScreenshots =
     Some \<lparr>retry_outcome = Inr (),
           retry_store = \<lparr>screenshots = [(''c.png'', ''CCCC'')],
                          sessionIdToScreenshotNames = [(''s2'', [''c.png''])]\<rparr>,
           retry_sleeps = [Finite 50], retry_attempts = 2\<rparr>"
proof -
  have on: "\<forall>m. 0 \<le> m \<and> m < 0 + 1 \<longrightarrow> goesOn failsOnce (Finite 3) m"
    by (simp add: goesOn_def failsOnce_def attemptValue_def)
  have stop: "\<not> goesOn failsOnce (Finite 3) (0 + 1)"
    by (simp add: goesOn_def failsOnce_def)
  have one: "[0..<1] = [0::nat]" by simp
  show ?thesis
    unfolding retryClearScreenshotsForSession_def Let_def
    using retryLoop_stops[OF on stop, of "''s1''" "Finite 50" "[]" threeScreenshots]
    by (simp add: failsOnce_def threeScreenshots_eq clearScreenshotsForSession_def one)
qed

lemma singleOwner_three: "singleOwner threeScreenshots"
  by (simp add: singleOwner_def threeScreenshots_eq)

theorem clearScreenshotsForSession_purges_session_witness:
  "singleOwner threeScreenshots \<and>
   (\<exists>res. retryClearScreenshotsForSession failsOnce ''s1''
      \<lparr>retries = None, initialDelayMs = None\<rparr> threeScreenshots = Some res \<and>
      retry_outcome res = Inr () \<and>
      map_of (screenshots (retry_store res)) ''a.png'' = None \<and>
      map_of (screenshots (retry_store res)) ''b.png'' = None \<and>
      map_of (sessionIdToScreenshotNames (retry_store res)) ''s1'' = None \<and>
      map_of (screenshots (retry_store res)) ''c.png'' = Some ''CCCC'')"
proof -
  define res where "res =
     \<lparr>retry_outcome = Inr (),
      retry_store = \<lparr>screenshots = [(''c.png'', ''CCCC'')],
                     sessionIdToScreenshotNames = [(''s2'', [''c.png''])]\<rparr>,
      retry_sleeps = [Finite 50], retry_attempts = 2\<rparr>"
  have run: "retryClearScreenshotsForSession failsOnce ''s1''
      \<lparr>retries = None, initialDelayMs = None\<rparr> threeScreenshots = Some res"
    by (simp add: retry_failsOnce res_def)
  have out: "retry_outcome res = Inr ()" by (simp add: res_def)
  have h1: "singleOwner threeScreenshots" by (rule singleOwner_three)
  have h2: "retry_store res = clearScreenshotsForSession ''s1'' threeScreenshots \<or>
      (\<exists>res'. retryClearScreenshotsForSession failsOnce ''s1''
          \<lparr>retries = None, initialDelayMs = None\<rparr> threeScreenshots = Some res' \<and>
          retry_outcome res' = Inr () \<and> retry_store res = retry_store res')"
    using run out by (intro disjI2 exI[of _ res]) simp
  have names1: "registeredUnder threeScreenshots ''s1'' = [''a.png'', ''b.png'']"
    and names2: "registeredUnder threeScreenshots ''s2'' = [''c.png'']"
    and before: "map_of (screenshots threeScreenshots) ''c.png'' = Some ''CCCC''"
    by (simp_all add: registeredUnder_def threeScreenshots_eq)
  note purge = clearScreenshotsForSession_purges_session[OF h1 h2]
  have gone: "\<forall>name \<in> set (registeredUnder threeScreenshots ''s1'').
            map_of (screenshots (retry_store res)) name = None"
    using purge by (rule conjunct1)
  have index: "map_of (sessionIdToScreenshotNames (retry_store res)) ''s1'' = None"
    using purge by (rule conjunct1[OF conjunct2])
  have kept: "\<forall>name \<in> set (registeredUnder threeScreenshots ''s2'').
           map_of (screenshots (retry_store res)) name = map_of (screenshots threeScreenshots) name"
    using purge[THEN conjunct2, THEN conjunct2, THEN spec, of "''s2''"] by simp
  from gone index kept
  have "map_of (screenshots (retry_store res)) ''a.png'' = None"
    and "map_of (screenshots (retry_store res)) ''b.png'' = None"
    and "map_of (sessionIdToScreenshotNames (retry_store res)) ''s1'' = None"
    and "map_of (screenshots (retry_store res)) ''c.png'' = Some ''CCCC''"
    by (simp_all add: names1 names2 before)
  then show ?thesis
    using h1 run out by (intro conjI exI[of _ res]) simp_all
qed

section \<open>The retry policy\<close>

text \<open>The wrapper is the loop from attempt zero, with the defaults filled in.\<close>

lemma retry_as_loop:
  "retryClearScreenshotsForSession faults sid opts st =
     retryLoop faults (retriesOf opts) sid 0 (initialDelayOf opts) [] st"
  by (simp add: retryClearScreenshotsForSession_def retriesOf_def initialDelayOf_def)

lemma retry_from_zero:
  assumes "\<forall>m < k. goesOn faults (retriesOf opts) m" and "\<not> goesOn faults (retriesOf opts) k"
  shows "retryClearScreenshotsForSession faults sid opts st =
     Some \<lparr>retry_outcome =
              (case faults k of None \<Rightarrow> Inr () | Some err \<Rightarrow> Inl (toError err)),
           retry_store =
              (case faults k of None \<Rightarrow> clearScreenshotsForSession sid st | Some err \<Rightarrow> st),
           retry_sleeps = map (backoffDelay (initialDelayOf opts)) [0..<k],
           retry_attempts = k + 1\<rparr>"
proof -
  have on: "\<forall>m. 0 \<le> m \<and> m < 0 + k \<longrightarrow> goesOn faults (retriesOf opts) m"
    using assms(1) by simp
  have stop: "\<not> goesOn faults (retriesOf opts) (0 + k)" using assms(2) by simp
  show ?thesis
    using retryLoop_stops[OF on stop, of sid "initialDelayOf opts" "[]" st]
    by (simp add: retry_as_loop)
qed

text \<open>Doubling a delay that is not negative, and the attempt counter below its ceiling.\<close>

lemma maxDouble_pos: "0 < maxDouble"
  by (simp add: maxDouble_def)

lemma doubledDelay_nonneg: "0 \<le> d \<Longrightarrow> doubledDelay (Finite d) = Finite (min (d * 2) 1000)"
  using maxDouble_pos by simp

lemma attemptValue_small: "n \<le> 2 ^ 53 \<Longrightarrow> attemptValue n = n"
  by (simp add: attemptValue_def)

text \<open>
  With a finite \<^verbatim>\<open>retries\<close> up to 2 to the power 53 the counter reaches it, and the loop
  has stopped by then.
\<close>

lemma finite_retries_reached:
  assumes "r \<le> 2 ^ 53"
  shows "reached (nat \<lceil>r\<rceil>) (Finite r)"
proof -
  have "\<lceil>r\<rceil> \<le> 2 ^ 53" using assms by (simp add: ceiling_le_iff)
  then have small: "nat \<lceil>r\<rceil> \<le> 2 ^ 53" by (simp add: nat_le_iff)
  have "r \<le> real_of_int \<lceil>r\<rceil>" by (rule le_of_int_ceiling)
  also have "\<dots> \<le> real (nat \<lceil>r\<rceil>)" by simp
  finally show ?thesis by (simp add: attemptValue_small[OF small])
qed

lemma finite_retries_bound:
  assumes "retryLoop faults (Finite r) sid 0 delay [] st = Some res" and "r \<le> 2 ^ 53"
  shows "int (retry_attempts res) \<le> max \<lceil>r\<rceil> 0 + 1"
proof (cases "retry_attempts res \<le> 1")
  case True
  then show ?thesis by simp
next
  case False
  then have "retry_attempts res - 2 < retry_attempts res - 1" by simp
  with retryLoop_result[OF assms(1)] have "goesOn faults (Finite r) (retry_attempts res - 2)"
    by simp
  then have "real (attemptValue (retry_attempts res - 2)) < r" by (simp add: goesOn_def)
  then have "real (retry_attempts res - 2) < r"
    using assms(2) by (simp add: attemptValue_def min_def split: if_splits)
  then have "int (retry_attempts res - 2) < \<lceil>r\<rceil>" by (simp add: less_ceiling_iff)
  with False show ?thesis by simp
qed

lemma upt_3: "[0..<3] = [0, 1, 2::nat]" and upt_2: "[0..<2] = [0, 1::nat]"
  and upt_1: "[0..<1] = [0::nat]"
  by (simp_all add: upt_rec)

lemma less_numeral_cases:
  "(\<forall>m < (3::nat). P m) \<longleftrightarrow> P 0 \<and> P 1 \<and> P 2"
  "(\<forall>m < (2::nat). P m) \<longleftrightarrow> P 0 \<and> P 1"
  "(\<forall>m < (1::nat). P m) \<longleftrightarrow> P 0"
  by (auto simp: less_Suc_eq numeral_3_eq_3 numeral_2_eq_2)

text \<open>
  Claim C5 at four option values. With \<^verbatim>\<open>retries = -1\<close> the wrapper makes one attempt,
  more than \<^verbatim>\<open>retries + 1 = 0\<close>. With \<^verbatim>\<open>retries = 1.5\<close> and a purge that always fails it
  makes three attempts, more than \<^verbatim>\<open>retries + 1 = 2.5\<close>. With \<^verbatim>\<open>retries = NaN\<close> and a
  purge that always fails it never gives up: it neither returns nor throws. With
  \<^verbatim>\<open>initialDelayMs = 5000\<close> and a purge that fails once it sleeps for 5000 ms, which is
  above the cap of 1000 ms.
\<close>

theorem retryClearScreenshotsForSession_options_counterexample:
  "map_option retry_attempts
     (retryClearScreenshotsForSession neverFails ''s1''
        \<lparr>retries = Some (Finite (- 1)), initialDelayMs = None\<rparr> emptyResources) = Some 1 \<and>
   \<not> (1::real) \<le> - 1 + 1 \<and>
   map_option retry_attempts
     (retryClearScreenshotsForSession alwaysBusy ''s1''
        \<lparr>retries = Some (Finite (3 / 2)), initialDelayMs = None\<rparr> emptyResources) = Some 3 \<and>
   \<not> (3::real) \<le> 3 / 2 + 1 \<and>
   retryClearScreenshotsForSession alwaysBusy ''s1''
     \<lparr>retries = Some NotANumber, initialDelayMs = None\<rparr> emptyResources = None \<and>
   map_option retry_sleeps
     (retryClearScreenshotsForSession failsOnce ''s1''
        \<lparr>retries = None, initialDelayMs = Some (Finite 5000)\<rparr> emptyResources) =
     Some [Finite 5000]"
proof (intro conjI)
  show "map_option retry_attempts
     (retryClearScreenshotsForSession neverFails ''s1''
        \<lparr>retries = Some (Finite (- 1)), initialDelayMs = None\<rparr> emptyResources) = Some 1"
    by (subst retry_from_zero[of 0]) (simp_all add: goesOn_def attemptValue_def neverFails_def)
  show "\<not> (1::real) \<le> - 1 + 1" by simp
  show "map_option retry_attempts
     (retryClearScreenshotsForSession alwaysBusy ''s1''
        \<lparr>retries = Some (Finite (3 / 2)), initialDelayMs = None\<rparr> emptyResources) = Some 3"
    by (subst retry_from_zero[of 2])
       (simp_all add: goesOn_def alwaysBusy_def retriesOf_def less_numeral_cases
          attemptValue_def)
  show "\<not> (3::real) \<le> 3 / 2 + 1" by simp
  show "retryClearScreenshotsForSession alwaysBusy ''s1''
     \<lparr>retries = Some NotANumber, initialDelayMs = None\<rparr> emptyResources = None"
    by (simp add: retry_as_loop retryLoop_None goesOn_def alwaysBusy_def retriesOf_def)
  show "map_option retry_sleeps
     (retryClearScreenshotsForSession failsOnce ''s1''
        \<lparr>retries = None, initialDelayMs = Some (Finite 5000)\<rparr> emptyResources) =
     Some [Finite 5000]"
    by (subst retry_from_zero[of 1])
       (simp_all add: goesOn_def failsOnce_def retriesOf_def initialDelayOf_def
          less_numeral_cases upt_1 attemptValue_def)
qed

text \<open>
  Claim C5, amended. For every session id, every options value and every schedule of
  failures. When the wrapper returns or throws after \<open>n\<close> attempts, then \<open>n \<ge> 1\<close>;
  each of the first \<open>n - 1\<close> attempts failed at an attempt number, counted from zero,
  that had not reached \<^verbatim>\<open>retries\<close>; attempt \<open>n\<close> succeeded, or failed with its number
  at or above \<^verbatim>\<open>retries\<close>; the wrapper has slept once between two attempts, first for
  \<^verbatim>\<open>initialDelayMs\<close> and each next time for \<^verbatim>\<open>Math.min(2 * previous, 1000)\<close>; it returns
  normally exactly when attempt \<open>n\<close> succeeded and throws the error of attempt \<open>n\<close>
  (as an \<^verbatim>\<open>Error\<close>) otherwise; and the store is purged exactly when it returns normally.
  The wrapper neither returns nor throws exactly when every attempt fails and no attempt
  number reaches \<^verbatim>\<open>retries\<close>. For a finite \<^verbatim>\<open>retries\<close> up to 2 to the power 53 it always
  returns or throws, after at most \<open>max(\<lceil>retries\<rceil>, 0) + 1\<close> attempts, which is
  \<^verbatim>\<open>retries + 1\<close> for a non-negative integer; for \<^verbatim>\<open>-Infinity\<close> it makes exactly one
  attempt; for \<^verbatim>\<open>NaN\<close> and \<^verbatim>\<open>Infinity\<close> it never throws.
\<close>

theorem retryClearScreenshotsForSession_policy:
  "(\<forall>res. retryClearScreenshotsForSession faults sid opts st = Some res \<longrightarrow>
      1 \<le> retry_attempts res \<and>
      (\<forall>m < retry_attempts res - 1. faults m \<noteq> None \<and> \<not> reached m (retriesOf opts)) \<and>
      (faults (retry_attempts res - 1) = None \<or>
       reached (retry_attempts res - 1) (retriesOf opts)) \<and>
      retry_sleeps res =
        map (backoffDelay (initialDelayOf opts)) [0..<retry_attempts res - 1] \<and>
      retry_outcome res =
        (case faults (retry_attempts res - 1) of
           None \<Rightarrow> Inr () | Some err \<Rightarrow> Inl (toError err)) \<and>
      retry_store res =
        (if retry_outcome res = Inr () then clearScreenshotsForSession sid st else st)) \<and>
   (retryClearScreenshotsForSession faults sid opts st = None \<longleftrightarrow>
      (\<forall>m. faults m \<noteq> None \<and> \<not> reached m (retriesOf opts))) \<and>
   (\<forall>r. retriesOf opts = Finite r \<and> r \<le> 2 ^ 53 \<longrightarrow>
      (\<exists>res. retryClearScreenshotsForSession faults sid opts st = Some res \<and>
             int (retry_attempts res) \<le> max \<lceil>r\<rceil> 0 + 1)) \<and>
   (retriesOf opts = MinusInfinity \<longrightarrow>
      (\<exists>res. retryClearScreenshotsForSession faults sid opts st = Some res \<and>
             retry_attempts res = 1)) \<and>
   (retriesOf opts = NotANumber \<or> retriesOf opts = PlusInfinity \<longrightarrow>
      (\<forall>res. retryClearScreenshotsForSession faults sid opts st = Some res \<longrightarrow>
             retry_outcome res = Inr ()))"
proof (intro conjI allI impI)
  fix res
  assume run: "retryClearScreenshotsForSession faults sid opts st = Some res"
  then have loop: "retryLoop faults (retriesOf opts) sid 0 (initialDelayOf opts) [] st = Some res"
    by (simp add: retry_as_loop)
  note result = retryLoop_result[OF loop]
  show "1 \<le> retry_attempts res" using result by simp
  show "\<And>m. m < retry_attempts res - 1 \<Longrightarrow> faults m \<noteq> None"
    using result by (simp add: goesOn_def)
  show "\<And>m. m < retry_attempts res - 1 \<Longrightarrow> \<not> reached m (retriesOf opts)"
    using result by (simp add: goesOn_def)
  show "faults (retry_attempts res - 1) = None \<or>
       reached (retry_attempts res - 1) (retriesOf opts)"
    using result by (auto simp: goesOn_def)
  show "retry_sleeps res =
        map (backoffDelay (initialDelayOf opts)) [0..<retry_attempts res - 1]"
    using result by simp
  show "retry_outcome res =
        (case faults (retry_attempts res - 1) of
           None \<Rightarrow> Inr () | Some err \<Rightarrow> Inl (toError err))"
    using result by simp
  show "retry_store res =
        (if retry_outcome res = Inr () then clearScreenshotsForSession sid st else st)"
    using result by (cases "faults (retry_attempts res - 1)") simp_all
next
  show "retryClearScreenshotsForSession faults sid opts st = None \<longleftrightarrow>
      (\<forall>m. faults m \<noteq> None \<and> \<not> reached m (retriesOf opts))"
    by (simp add: retry_as_loop retryLoop_None goesOn_def)
next
  fix r
  assume "retriesOf opts = Finite r \<and> r \<le> 2 ^ 53"
  then have fin: "retriesOf opts = Finite r" and small: "r \<le> 2 ^ 53" by simp_all
  have "\<not> goesOn faults (Finite r) (nat \<lceil>r\<rceil>)"
    using finite_retries_reached[OF small] by (simp add: goesOn_def del: reached.simps)
  then have "retryLoop faults (Finite r) sid 0 (initialDelayOf opts) [] st \<noteq> None"
    unfolding retryLoop_None by blast
  then obtain res where res: "retryLoop faults (Finite r) sid 0 (initialDelayOf opts) [] st
      = Some res"
    by blast
  show "\<exists>res. retryClearScreenshotsForSession faults sid opts st = Some res \<and>
             int (retry_attempts res) \<le> max \<lceil>r\<rceil> 0 + 1"
    using res finite_retries_bound[OF res small] by (simp add: retry_as_loop fin)
next
  assume minus: "retriesOf opts = MinusInfinity"
  have on: "\<forall>m. 0 \<le> m \<and> m < 0 + 0 \<longrightarrow> goesOn faults MinusInfinity m" by simp
  have stop: "\<not> goesOn faults MinusInfinity (0 + 0)" by (simp add: goesOn_def)
  show "\<exists>res. retryClearScreenshotsForSession faults sid opts st = Some res \<and>
             retry_attempts res = 1"
    using retryLoop_stops[OF on stop, of sid "initialDelayOf opts" "[]" st]
    by (simp add: retry_as_loop minus)
next
  fix res
  assume never: "retriesOf opts = NotANumber \<or> retriesOf opts = PlusInfinity"
    and "retryClearScreenshotsForSession faults sid opts st = Some res"
  then have loop: "retryLoop faults (retriesOf opts) sid 0 (initialDelayOf opts) [] st = Some res"
    by (simp add: retry_as_loop)
  note result = retryLoop_result[OF loop]
  have "\<not> reached (retry_attempts res - 1) (retriesOf opts)"
    using never by auto
  then have "faults (retry_attempts res - 1) = None"
    using result by (simp add: goesOn_def)
  then show "retry_outcome res = Inr ()"
    using result by simp
qed

text \<open>
  The example: a purge that always fails, the default \<^verbatim>\<open>retries\<close> of 3 and an initial
  delay of 300 ms. The wrapper makes four attempts, sleeps for 300, 600 and 1000 ms, and
  throws the error of the last attempt; the store is as before.
\<close>

theorem retryClearScreenshotsForSession_policy_witness:
  "retriesOf \<lparr>retries = None, initialDelayMs = Some (Finite 300)\<rparr> = Finite 3 \<and>
   (\<exists>res. retryClearScreenshotsForSession alwaysBusy ''s1''
      \<lparr>retries = None, initialDelayMs = Some (Finite 300)\<rparr> threeScreenshots = Some res \<and>
      retry_attempts res = 4 \<and>
      retry_sleeps res = [Finite 300, Finite 600, Finite 1000] \<and>
      retry_outcome res = Inl (Error ''busy'') \<and>
      retry_store res = threeScreenshots)"
proof -
  let ?opts = "\<lparr>retries = None, initialDelayMs = Some (Finite 300)\<rparr>"
  note policy = retryClearScreenshotsForSession_policy[of alwaysBusy "''s1''" ?opts
      threeScreenshots]
  have R: "retriesOf ?opts = Finite 3" and D: "initialDelayOf ?opts = Finite 300"
    by (simp_all add: retriesOf_def initialDelayOf_def)
  have small: "retriesOf ?opts = Finite 3 \<and> (3::real) \<le> 2 ^ 53" using R by simp
  from policy[THEN conjunct2, THEN conjunct2, THEN conjunct1, rule_format, OF small]
  obtain res where run: "retryClearScreenshotsForSession alwaysBusy ''s1'' ?opts
      threeScreenshots = Some res"
    and bound: "int (retry_attempts res) \<le> max \<lceil>3::real\<rceil> 0 + 1"
    by blast
  note facts = policy[THEN conjunct1, rule_format, OF run]
  have stop: "reached (retry_attempts res - 1) (Finite 3)"
    using facts[THEN conjunct2, THEN conjunct2, THEN conjunct1]
    by (simp add: alwaysBusy_def R del: reached.simps)
  have lower: "3 \<le> retry_attempts res - 1"
    using stop by (simp add: attemptValue_def)
  have upper: "retry_attempts res \<le> 4" using bound by simp
  have n: "retry_attempts res = 4" using lower upper by arith
  have sleeps: "retry_sleeps res = [Finite 300, Finite 600, Finite 1000]"
    using facts[THEN conjunct2, THEN conjunct2, THEN conjunct2, THEN conjunct1]
    by (simp add: n D upt_3 numeral_2_eq_2 doubledDelay_nonneg del: doubledDelay.simps)
  have outcome: "retry_outcome res = Inl (Error ''busy'')"
    using facts by (simp add: n alwaysBusy_def)
  have store: "retry_store res = threeScreenshots"
    using facts by (simp add: outcome)
  show ?thesis
    using R run n sleeps outcome store by (intro conjI exI[of _ res])
qed

section \<open>The replay fetcher\<close>

text \<open>The two loops add up the records of the payload.\<close>

lemma addAction_totals:
  "addAction action totals =
     addTotals totals (totalsOf (List.map_filter tokenUsage [action]))"
  by (simp add: addAction_def addTotals_def totalsOf_def List.map_filter_simps Let_def
        split: option.splits)

lemma totalsOf_append: "totalsOf (xs @ ys) = addTotals (totalsOf xs) (totalsOf ys)"
  by (simp add: totalsOf_def addTotals_def List.map_filter_def)

lemma addTotals_assoc: "addTotals (addTotals a b) c = addTotals a (addTotals b c)"
  by (simp add: addTotals_def)

lemma map_filter_Cons_append:
  "List.map_filter f (x # xs) = List.map_filter f [x] @ List.map_filter f xs"
  by (simp add: List.map_filter_def)

lemma fold_addAction:
  "fold addAction acts totals = addTotals totals (totalsOf (List.map_filter tokenUsage acts))"
proof (induction acts arbitrary: totals)
  case Nil
  show ?case by (simp add: addTotals_def totalsOf_def List.map_filter_simps)
next
  case (Cons a acts)
  have "fold addAction (a # acts) totals = fold addAction acts (addAction a totals)" by simp
  also have "\<dots> = addTotals (addTotals totals (totalsOf (List.map_filter tokenUsage [a])))
                      (totalsOf (List.map_filter tokenUsage acts))"
    by (simp only: Cons.IH addAction_totals)
  also have "\<dots> = addTotals totals (totalsOf (List.map_filter tokenUsage (a # acts)))"
    by (simp only: addTotals_assoc totalsOf_append[symmetric] map_filter_Cons_append[symmetric])
  finally show ?case .
qed

lemma aggregatePages_ok:
  "list_all (\<lambda>page. actions page \<noteq> None) ps \<Longrightarrow>
   aggregatePages ps totals = Inr (addTotals totals (totalsOf (tokenUsagesOf ps)))"
proof (induction ps arbitrary: totals)
  case Nil
  show ?case by (simp add: tokenUsagesOf_def addTotals_def totalsOf_def List.map_filter_simps)
next
  case (Cons page ps)
  then obtain acts where acts: "actions page = Some acts" by auto
  have rest: "list_all (\<lambda>page. actions page \<noteq> None) ps" using Cons.prems by simp
  have split: "tokenUsagesOf (page # ps) = List.map_filter tokenUsage acts @ tokenUsagesOf ps"
    by (simp add: tokenUsagesOf_def acts)
  show ?case
    by (simp add: acts Cons.IH[OF rest] fold_addAction split totalsOf_append addTotals_assoc)
qed

lemma aggregatePages_bad:
  "\<not> list_all (\<lambda>page. actions page \<noteq> None) ps \<Longrightarrow> aggregatePages ps totals = Inl typeError"
  by (induction ps arbitrary: totals) (auto split: option.splits)

lemma addTotals_zero:
  "addTotals \<lparr>totalInputTokens = 0, totalOutputTokens = 0, totalTimeMs = 0\<rparr> t = t"
  by (simp add: addTotals_def)

lemma aggregateReplay_eq:
  "aggregateReplay replayJson =
     (case pagesOf replayJson of
        None \<Rightarrow> Inl typeError
      | Some ps \<Rightarrow> Inr (totalsOf (tokenUsagesOf ps)))"
  by (simp add: aggregateReplay_def pagesOf_def aggregatePages_ok aggregatePages_bad
        addTotals_zero split: option.splits)

text \<open>The result of the fetcher, case by case.\<close>

lemma truthy_modelKey:
  "truthy (if truthy (modelApiKey config) then modelApiKey config
           else if truthy (GEMINI_API_KEY env) then GEMINI_API_KEY env
           else GOOGLE_API_KEY env) \<longleftrightarrow>
   truthy (modelApiKey config) \<or> truthy (GEMINI_API_KEY env) \<or> truthy (GOOGLE_API_KEY env)"
  by simp

lemma fetch_result:
  "fst (fetchStagehandTokenUsageSummary config env network lines) =
     (if \<not> keysPresent config env then Inr None
      else (case network of
              Inl rejected \<Rightarrow> Inl rejected
            | Inr (Inl notJson) \<Rightarrow> Inr None
            | Inr (Inr replayJson) \<Rightarrow>
                (case pagesOf replayJson of
                   None \<Rightarrow> Inr None
                 | Some ps \<Rightarrow> Inr (Some (totalsOf (tokenUsagesOf ps))))))"
  unfolding fetchStagehandTokenUsageSummary_def Let_def truthy_modelKey
  by (simp add: keysPresent_def aggregateReplay_eq split: sum.splits option.splits)

section \<open>The close action\<close>

text \<open>The local variables after the \<^verbatim>\<open>try\<close> statement, in its three outcomes.\<close>

lemma catchCleanup_fields:
  "cleanupSuccessful (catchCleanup prev err v) = cleanupSuccessful v"
  "cleanupErrorMessage (catchCleanup prev err v) = messageOf err"
  "browserbaseSessionId (catchCleanup prev err v) = browserbaseSessionId v"
  "close_log (catchCleanup prev err v) =
     close_log v @ [ErrorCleaningUp (orElse prev ''default/unknown'') (messageOf err)]"
  by (simp_all add: catchCleanup_def)

lemma closeStep1_cleaned:
  assumes "getSession sm = Inr (Some session)" and "session_stagehand session"
    and "cleanupSession sm = None"
  shows "cleanupSuccessful (closeStep1 sm config env network) \<and>
         browserbaseSessionId (closeStep1 sm config env network) = session_sessionId session"
proof (cases "fetchStagehandTokenUsageSummary config env network []")
  case (Pair res lines)
  show ?thesis
  proof (cases res)
    case (Inl err)
    with Pair assms show ?thesis
      by (simp add: closeStep1_def Let_def catchCleanup_fields)
  next
    case (Inr found)
    with Pair assms show ?thesis
      by (cases found) (simp_all add: closeStep1_def Let_def)
  qed
qed

lemma closeStep1_absent:
  assumes "getSession sm = Inr None \<or>
           (getSession sm = Inr (Some session) \<and> \<not> session_stagehand session)"
  shows "closeStep1 sm config env network =
           \<lparr>cleanupSuccessful = False, cleanupErrorMessage = [], browserbaseSessionId = None,
            close_log = [NoSessionFound (orElse (currentSessionId sm) ''default/unknown'')]\<rparr>"
  using assms by (auto simp: closeStep1_def Let_def)

lemma closeStep1_failed:
  assumes "getSession sm = Inl err \<or>
           (getSession sm = Inr (Some session) \<and> session_stagehand session \<and>
            cleanupSession sm = Some err)"
  shows "\<not> cleanupSuccessful (closeStep1 sm config env network) \<and>
         cleanupErrorMessage (closeStep1 sm config env network) = messageOf err \<and>
         close_log (closeStep1 sm config env network) =
           [ErrorCleaningUp (orElse (currentSessionId sm) ''default/unknown'') (messageOf err)]"
  using assms by (auto simp: closeStep1_def Let_def catchCleanup_def)

text \<open>
  Claim C2 where the cleanup raises. The session exists and \<^verbatim>\<open>cleanupSession\<close> throws
  \<^verbatim>\<open>close failed\<close>: the action throws in its turn, so the tool call fails.
\<close>

theorem handleCloseSession_cleanup_error_counterexample:
  "fst (handleCloseSession (closingManager (Some (Error ''close failed''))) fullConfig noEnv
          (Inr (Inr twoPages))) =
     Inl (Error ''Failed to cleanup session (session ID was s1). Error: close failed. Session context has been reset to default.'')"
  by (simp add: handleCloseSession_def closeStep1_def closingManager_def Let_def
        catchCleanup_def orElse_def)

text \<open>
  Claim C2, amended. When the session is present and its cleanup returns, the action
  returns the success text. When no session is found (none, or one without a Stagehand
  handle), it returns the informational text. When \<^verbatim>\<open>getSession\<close> or \<^verbatim>\<open>cleanupSession\<close>
  throws an error with a non-empty message, the failure is logged and the action throws
  an error that carries the message and says that the session context has been reset to
  default. In every case the last line logged reports the reset of the context to
  default.
\<close>

theorem handleCloseSession_outcomes:
  "(getSession sm = Inr (Some session) \<and> session_stagehand session \<and> cleanupSession sm = None \<longrightarrow>
      (\<exists>replay. fst (handleCloseSession sm config env network) =
         Inr (''Browserbase session ('' @ orElse (currentSessionId sm) ''default'' @
              '') closed successfully. Context reset to default.'' @ replay))) \<and>
   (getSession sm = Inr None \<or>
      (getSession sm = Inr (Some session) \<and> \<not> session_stagehand session) \<longrightarrow>
      fst (handleCloseSession sm config env network) =
        Inr (if currentSessionId sm \<noteq> [] \<and> currentSessionId sm \<noteq> defaultSessionId sm
             then ''No active session found for session ID '' @ [CHR 0x27] @
                  currentSessionId sm @ [CHR 0x27] @ ''. The context has been reset to default.''
             else ''No active session found to close. Session context has been reset to default.'')) \<and>
   ((getSession sm = Inl err \<or>
      (getSession sm = Inr (Some session) \<and> session_stagehand session \<and>
       cleanupSession sm = Some err)) \<and> messageOf err \<noteq> [] \<longrightarrow>
      fst (handleCloseSession sm config env network) =
        Inl (Error (''Failed to cleanup session (session ID was '' @
               orElse (currentSessionId sm) ''default/unknown'' @ ''). Error: '' @
               messageOf err @ ''. Session context has been reset to default.'')) \<and>
      snd (handleCloseSession sm config env network) =
        [ErrorCleaningUp (orElse (currentSessionId sm) ''default/unknown'') (messageOf err),
         ContextResetToDefault (orElse (currentSessionId sm) ''default/unknown'')]) \<and>
   last (snd (handleCloseSession sm config env network)) =
     ContextResetToDefault (orElse (currentSessionId sm) ''default/unknown'')"
proof (intro conjI impI)
  assume "getSession sm = Inr (Some session) \<and> session_stagehand session \<and>
          cleanupSession sm = None"
  then have "cleanupSuccessful (closeStep1 sm config env network)"
    using closeStep1_cleaned by blast
  then show "\<exists>replay. fst (handleCloseSession sm config env network) =
         Inr (''Browserbase session ('' @ orElse (currentSessionId sm) ''default'' @
              '') closed successfully. Context reset to default.'' @ replay)"
    by (simp add: handleCloseSession_def Let_def)
next
  assume "getSession sm = Inr None \<or>
      (getSession sm = Inr (Some session) \<and> \<not> session_stagehand session)"
  then show "fst (handleCloseSession sm config env network) =
        Inr (if currentSessionId sm \<noteq> [] \<and> currentSessionId sm \<noteq> defaultSessionId sm
             then ''No active session found for session ID '' @ [CHR 0x27] @
                  currentSessionId sm @ [CHR 0x27] @ ''. The context has been reset to default.''
             else ''No active session found to close. Session context has been reset to default.'')"
    by (simp add: handleCloseSession_def Let_def closeStep1_absent[of sm session])
next
  assume a: "(getSession sm = Inl err \<or>
      (getSession sm = Inr (Some session) \<and> session_stagehand session \<and>
       cleanupSession sm = Some err)) \<and> messageOf err \<noteq> []"
  then have failed: "\<not> cleanupSuccessful (closeStep1 sm config env network)"
      "cleanupErrorMessage (closeStep1 sm config env network) = messageOf err"
      "close_log (closeStep1 sm config env network) =
           [ErrorCleaningUp (orElse (currentSessionId sm) ''default/unknown'') (messageOf err)]"
    using closeStep1_failed[of sm err session config env network] by simp_all
  show "fst (handleCloseSession sm config env network) =
        Inl (Error (''Failed to cleanup session (session ID was '' @
               orElse (currentSessionId sm) ''default/unknown'' @ ''). Error: '' @
               messageOf err @ ''. Session context has been reset to default.''))"
    using a failed by (simp add: handleCloseSession_def Let_def)
  show "snd (handleCloseSession sm config env network) =
        [ErrorCleaningUp (orElse (currentSessionId sm) ''default/unknown'') (messageOf err),
         ContextResetToDefault (orElse (currentSessionId sm) ''default/unknown'')]"
    using a failed by (simp add: handleCloseSession_def Let_def)
next
  show "last (snd (handleCloseSession sm config env network)) =
     ContextResetToDefault (orElse (currentSessionId sm) ''default/unknown'')"
    by (simp add: handleCloseSession_def Let_def)
qed

theorem handleCloseSession_outcomes_witness:
  "getSession (closingManager (Some (Error ''close failed''))) =
     Inr (Some \<lparr>session_stagehand = True, session_sessionId = Some ''bb-1''\<rparr>) \<and>
   cleanupSession (closingManager (Some (Error ''close failed''))) = Some (Error ''close failed'') \<and>
   messageOf (Error ''close failed'') \<noteq> [] \<and>
   snd (handleCloseSession (closingManager (Some (Error ''close failed''))) fullConfig noEnv
          (Inr (Inr twoPages))) =
     [ErrorCleaningUp ''s1'' ''close failed'', ContextResetToDefault ''s1''] \<and>
   cleanupSession (closingManager None) = None \<and>
   fst (handleCloseSession (closingManager None) fullConfig noEnv (Inr (Inr twoPages))) =
     Inr ''Browserbase session (s1) closed successfully. Context reset to default. View replay at https://www.browserbase.com/sessions/bb-1''"
proof -
  let ?session = "\<lparr>session_stagehand = True, session_sessionId = Some ''bb-1''\<rparr>"
  let ?failing = "closingManager (Some (Error ''close failed''))"
  have g: "getSession ?failing = Inr (Some ?session)"
    and c: "cleanupSession ?failing = Some (Error ''close failed'')"
    and m: "messageOf (Error ''close failed'') \<noteq> []"
    and c': "cleanupSession (closingManager None) = None"
    and cur: "currentSessionId ?failing = ''s1''"
    by (simp_all add: closingManager_def)
  have hyp: "(getSession ?failing = Inl (Error ''close failed'') \<or>
      (getSession ?failing = Inr (Some ?session) \<and> session_stagehand ?session \<and>
       cleanupSession ?failing = Some (Error ''close failed''))) \<and>
      messageOf (Error ''close failed'') \<noteq> []"
    using g c by simp
  have logged: "snd (handleCloseSession ?failing fullConfig noEnv (Inr (Inr twoPages))) =
      [ErrorCleaningUp (orElse (currentSessionId ?failing) ''default/unknown'')
         (messageOf (Error ''close failed'')),
       ContextResetToDefault (orElse (currentSessionId ?failing) ''default/unknown'')]"
    using handleCloseSession_outcomes[of ?failing ?session fullConfig noEnv
        "Inr (Inr twoPages)" "Error ''close failed''", THEN conjunct2, THEN conjunct2,
        THEN conjunct1, rule_format, OF hyp]
    by (rule conjunct2)
  have closed: "fst (handleCloseSession (closingManager None) fullConfig noEnv
                  (Inr (Inr twoPages))) =
     Inr ''Browserbase session (s1) closed successfully. Context reset to default. View replay at https://www.browserbase.com/sessions/bb-1''"
    by (simp add: handleCloseSession_def closeStep1_def closingManager_def fullConfig_def
          noEnv_def fetchStagehandTokenUsageSummary_def aggregateReplay_eq pagesOf_def
          twoPages_def Let_def orElse_def)
  show ?thesis
    using g c m c' closed logged by (simp add: cur orElse_def)
qed

text \<open>
  Claim C6 where the network fails. The call of \<^verbatim>\<open>fetch\<close> stands before the \<^verbatim>\<open>try\<close>
  block, so a rejected request makes the fetcher reject: it does not return \<^verbatim>\<open>null\<close>.
\<close>

theorem fetchStagehandTokenUsageSummary_network_counterexample:
  "fst (fetchStagehandTokenUsageSummary fullConfig noEnv (Inl (Error ''fetch failed'')) []) =
     Inl (Error ''fetch failed'') \<and>
   fst (fetchStagehandTokenUsageSummary fullConfig noEnv (Inl (Error ''fetch failed'')) []) \<noteq>
     Inr None"
  by (simp add: fetchStagehandTokenUsageSummary_def fullConfig_def noEnv_def Let_def)

text \<open>Whatever the fetcher does, the close action returns or throws the same.\<close>

lemma closeStep1_independent:
  "cleanupSuccessful (closeStep1 sm config env network) =
     cleanupSuccessful (closeStep1 sm config' env' network') \<and>
   browserbaseSessionId (closeStep1 sm config env network) =
     browserbaseSessionId (closeStep1 sm config' env' network') \<and>
   (\<not> cleanupSuccessful (closeStep1 sm config env network) \<longrightarrow>
      cleanupErrorMessage (closeStep1 sm config env network) =
        cleanupErrorMessage (closeStep1 sm config' env' network'))"
proof (cases "getSession sm")
  case (Inl err)
  then show ?thesis by (simp add: closeStep1_def Let_def catchCleanup_def)
next
  case (Inr found)
  show ?thesis
  proof (cases found)
    case None
    with Inr show ?thesis by (simp add: closeStep1_def Let_def)
  next
    case (Some session)
    show ?thesis
    proof (cases "session_stagehand session")
      case False
      with Inr Some show ?thesis by (simp add: closeStep1_def Let_def)
    next
      case True
      show ?thesis
      proof (cases "cleanupSession sm")
        case None
        with Inr Some True
        show ?thesis
          using closeStep1_cleaned[of sm session config env network]
            closeStep1_cleaned[of sm session config' env' network']
          by simp
      next
        case (Some err)
        with Inr \<open>found = Some session\<close> True show ?thesis
          by (simp add: closeStep1_def Let_def catchCleanup_def)
      qed
    qed
  qed
qed

lemma handleCloseSession_independent:
  "fst (handleCloseSession sm config env network) =
   fst (handleCloseSession sm config' env' network')"
proof -
  let ?v = "closeStep1 sm config env network" and ?w = "closeStep1 sm config' env' network'"
  note ind = closeStep1_independent[of sm config env network config' env' network']
  show ?thesis
  proof (cases "cleanupSuccessful ?v")
    case True
    then have "cleanupSuccessful ?w" using ind by simp
    with True ind show ?thesis by (simp add: handleCloseSession_def Let_def)
  next
    case False
    then have "\<not> cleanupSuccessful ?w" using ind by simp
    with False ind show ?thesis by (simp add: handleCloseSession_def Let_def)
  qed
qed

text \<open>
  Claim C6, amended. Without the keys the fetcher returns \<^verbatim>\<open>null\<close>. With them: for a
  payload every field of which can be read, it returns totals in which
  \<^verbatim>\<open>totalInputTokens\<close> and \<^verbatim>\<open>totalOutputTokens\<close> are the sums of \<^verbatim>\<open>inputTokens\<close> and
  \<^verbatim>\<open>outputTokens\<close> over every action that carries a token-usage record, across all
  pages, and \<^verbatim>\<open>totalTimeMs\<close> is the sum of \<^verbatim>\<open>timeMs\<close> over the records where it is a
  number; a body that is not JSON and a payload with a field that cannot be read give
  \<^verbatim>\<open>null\<close>; a request that fails at the network makes the fetcher reject with that
  error. None of this reaches the caller of the close action: what the action returns or
  throws is the same for every configuration, environment and behaviour of the network.
\<close>

theorem fetchStagehandTokenUsageSummary_totals:
  "fst (fetchStagehandTokenUsageSummary config env network lines) =
     (if \<not> keysPresent config env then Inr None
      else (case network of
              Inl rejected \<Rightarrow> Inl rejected
            | Inr (Inl notJson) \<Rightarrow> Inr None
            | Inr (Inr replayJson) \<Rightarrow>
                (case pagesOf replayJson of
                   None \<Rightarrow> Inr None
                 | Some ps \<Rightarrow>
                     Inr (Some
                       \<lparr>totalInputTokens = (\<Sum>u\<leftarrow>tokenUsagesOf ps. inputTokens u),
                        totalOutputTokens = (\<Sum>u\<leftarrow>tokenUsagesOf ps. outputTokens u),
                        totalTimeMs = sum_list (List.map_filter timeMs (tokenUsagesOf ps))\<rparr>)))) \<and>
   fst (handleCloseSession sm config env network) =
     fst (handleCloseSession sm config' env' network')"
proof
  show "fst (fetchStagehandTokenUsageSummary config env network lines) =
     (if \<not> keysPresent config env then Inr None
      else (case network of
              Inl rejected \<Rightarrow> Inl rejected
            | Inr (Inl notJson) \<Rightarrow> Inr None
            | Inr (Inr replayJson) \<Rightarrow>
                (case pagesOf replayJson of
                   None \<Rightarrow> Inr None
                 | Some ps \<Rightarrow>
                     Inr (Some
                       \<lparr>totalInputTokens = (\<Sum>u\<leftarrow>tokenUsagesOf ps. inputTokens u),
                        totalOutputTokens = (\<Sum>u\<leftarrow>tokenUsagesOf ps. outputTokens u),
                        totalTimeMs = sum_list (List.map_filter timeMs (tokenUsagesOf ps))\<rparr>))))"
    unfolding fetch_result totalsOf_def by (rule refl)
  show "fst (handleCloseSession sm config env network) =
     fst (handleCloseSession sm config' env' network')"
    by (rule handleCloseSession_independent)
qed

theorem fetchStagehandTokenUsageSummary_totals_witness:
  "fst (fetchStagehandTokenUsageSummary fullConfig noEnv (Inr (Inr twoPages)) []) =
     Inr (Some \<lparr>totalInputTokens = 130, totalOutputTokens = 25, totalTimeMs = 7\<rparr>) \<and>
   fst (fetchStagehandTokenUsageSummary fullConfig noEnv (Inr (Inl (Error ''not JSON''))) []) =
     Inr None \<and>
   fst (fetchStagehandTokenUsageSummary fullConfig noEnv
          (Inr (Inr \<lparr>data = None\<rparr>)) []) = Inr None \<and>
   fst (handleCloseSession (closingManager None) fullConfig noEnv (Inl (Error ''fetch failed''))) =
     fst (handleCloseSession (closingManager None) fullConfig noEnv (Inr (Inr twoPages)))"
proof -
  have keys: "keysPresent fullConfig noEnv"
    by (simp add: keysPresent_def fullConfig_def)
  have ps: "pagesOf twoPages =
      Some [\<lparr>actions = Some
              [\<lparr>tokenUsage = Some \<lparr>inputTokens = 100, outputTokens = 20, timeMs = Some 7\<rparr>\<rparr>,
               \<lparr>tokenUsage = None\<rparr>]\<rparr>,
            \<lparr>actions = Some
              [\<lparr>tokenUsage = Some \<lparr>inputTokens = 30, outputTokens = 5, timeMs = None\<rparr>\<rparr>]\<rparr>]"
    by (simp add: pagesOf_def twoPages_def)
  have none: "pagesOf \<lparr>data = None\<rparr> = None"
    by (simp add: pagesOf_def)
  show ?thesis
    using fetchStagehandTokenUsageSummary_totals[of fullConfig noEnv "Inr (Inr twoPages)" "[]"
        "closingManager None" fullConfig noEnv "Inl (Error ''fetch failed'')"]
      fetchStagehandTokenUsageSummary_totals[of fullConfig noEnv
        "Inr (Inl (Error ''not JSON''))" "[]"
        "closingManager None" fullConfig noEnv "Inl (Error ''fetch failed'')"]
      fetchStagehandTokenUsageSummary_totals[of fullConfig noEnv
        "Inr (Inr \<lparr>data = None\<rparr>)" "[]"
        "closingManager None" fullConfig noEnv "Inl (Error ''fetch failed'')"]
    by (simp add: keys ps none tokenUsagesOf_def List.map_filter_simps)
qed

end
